theory Spec2Isabelle
  imports Main
begin

section \<open>Data model\<close>

text \<open>
  The relational tables are lists of rows. Field names carry a prefix per table
  (\<open>u_\<close> for Users, \<open>c_\<close> for UserCredentials, \<open>r_\<close> for Roles, \<open>p_\<close> for
  Permissions, \<open>t_\<close> for token claims), since several tables share column names.
  A nullable column is an \<open>option\<close>; dates are seconds on a clock.
\<close>

datatype authType = Password | OpenId

record user =
  u_id :: nat
  u_email :: string
  u_firstName :: string
  u_lastName :: string
  u_roleId :: "nat option"
  u_avatarId :: "nat option"
  u_isActive :: bool
  u_isDeleted :: bool

record credential =
  c_id :: nat
  c_userId :: nat
  c_authType :: authType
  c_loginName :: string
  c_passwordHash :: "string option"
  c_passwordSalt :: "string option"
  c_lastPasswordChange :: "nat option"
  c_passwordExpired :: bool
  c_openIdProvider :: "string option"
  c_openIdSubject :: "string option"
  c_isActive :: bool
  c_isDeleted :: bool

record role =
  r_id :: nat
  r_name :: string

record permission =
  p_id :: nat
  p_code :: string

record store =
  users :: "user list"
  credentials :: "credential list"
  roles :: "role list"
  permissions :: "permission list"
  rolePermissions :: "(nat \<times> nat) list"

text \<open>
  What a request handler takes from outside the store: the configuration
  (\<open>config.jwt\<close>), the clock, the password-hashing library (bcryptjs) with the
  salt it draws for this request, and the e-mail validator of the User model.
\<close>

record env =
  jwt_secret :: string
  jwt_expiresIn :: nat
  now :: nat
  bcrypt_compare :: "string \<Rightarrow> string \<Rightarrow> bool"
  bcrypt_hash :: "string \<Rightarrow> string \<Rightarrow> string"
  bcrypt_genSalt :: string
  isEmail :: "string \<Rightarrow> bool"

text \<open>
  The payload object handed to \<open>jwt.sign\<close>. A claim that the object literal does
  not list, or lists with the value \<open>undefined\<close>, is \<open>None\<close>.
\<close>

record claims =
  t_userId :: "nat option"
  t_id :: "nat option"
  t_email :: "string option"
  t_loginName :: "string option"
  t_authType :: "authType option"
  t_roleId :: "nat option"
  t_avatarId :: "nat option"
  t_credentialId :: "nat option"

text \<open>
  A bearer string is either not a token at all, or a payload signed with some
  secret and carrying an expiry (the signature is symbolic: it verifies exactly
  under the secret that signed it).
\<close>

datatype token = Malformed string | Signed string claims nat

datatype jwt_error = JsonWebTokenError | TokenExpiredError

record response =
  status :: nat
  message :: string
  r_token :: "token option"

definition reply :: "nat \<Rightarrow> string \<Rightarrow> response" where
  "reply code msg = \<lparr>status = code, message = msg, r_token = None\<rparr>"

definition no_claims :: claims where
  "no_claims = \<lparr>t_userId = None, t_id = None, t_email = None, t_loginName = None,
     t_authType = None, t_roleId = None, t_avatarId = None, t_credentialId = None\<rparr>"

section \<open>Token signing and verification (jsonwebtoken)\<close>

definition jwt_sign :: "claims \<Rightarrow> string \<Rightarrow> nat \<Rightarrow> nat \<Rightarrow> token" where
  "jwt_sign payload secret expiresIn clock = Signed secret payload (clock + expiresIn)"

fun jwt_verify :: "token \<Rightarrow> string \<Rightarrow> nat \<Rightarrow> jwt_error + claims" where
  "jwt_verify (Malformed s) secret clock = Inl JsonWebTokenError"
| "jwt_verify (Signed k payload exp) secret clock =
     (if k \<noteq> secret then Inl JsonWebTokenError
      else if exp \<le> clock then Inl TokenExpiredError
      else Inr payload)"

section \<open>JavaScript truthiness and array search\<close>

definition truthy_str :: "string option \<Rightarrow> bool" where
  "truthy_str s = (case s of None \<Rightarrow> False | Some x \<Rightarrow> x \<noteq> [])"

definition truthy_num :: "nat option \<Rightarrow> bool" where
  "truthy_num n = (case n of None \<Rightarrow> False | Some k \<Rightarrow> k \<noteq> 0)"

text \<open>
  The elements of the arrays searched by \<open>Array.prototype.includes\<close> in the
  middleware: a string, or a Permission model instance (an object).
\<close>

datatype jsval = JStr string | JObj permission

text \<open>
  \<open>xs.includes(s)\<close> for a string \<open>s\<close>: SameValueZero comparison, under which an
  object is never equal to a string.
\<close>

fun array_includes :: "jsval list \<Rightarrow> string \<Rightarrow> bool" where
  "array_includes [] s = False"
| "array_includes (JStr t # xs) s = (t = s \<or> array_includes xs s)"
| "array_includes (JObj p # xs) s = array_includes xs s"

section \<open>Auth Guard and permission gate (middleware/auth.js)\<close>

record loaded_role =
  lr_id :: nat
  lr_name :: string
  lr_permissions :: "permission list"

record loaded_user =
  lu_user :: user
  lu_role :: "loaded_role option"

text \<open>What the middleware attaches to the request.\<close>

record request =
  req_user :: "claims option"
  req_userRecord :: "loaded_user option"
  req_permissions :: "string list"

definition role_permissions :: "store \<Rightarrow> nat \<Rightarrow> permission list" where
  "role_permissions st rid =
     filter (\<lambda>p. (rid, p_id p) \<in> set (rolePermissions st)) (permissions st)"

definition load_role :: "store \<Rightarrow> nat option \<Rightarrow> loaded_role option" where
  "load_role st rid =
     (case rid of
        None \<Rightarrow> None
      | Some k \<Rightarrow>
          (case find (\<lambda>r. r_id r = k) (roles st) of
             None \<Rightarrow> None
           | Some r \<Rightarrow> Some \<lparr>lr_id = r_id r, lr_name = r_name r,
                             lr_permissions = role_permissions st k\<rparr>))"

text \<open>
  \<open>User.findOne({ where: { id, isActive: true, isDeleted: false }, include: role
  with permissions })\<close>.
\<close>

definition find_active_user :: "store \<Rightarrow> nat \<Rightarrow> loaded_user option" where
  "find_active_user st uid =
     (case find (\<lambda>u. u_id u = uid \<and> u_isActive u \<and> \<not> u_isDeleted u) (users st) of
        None \<Rightarrow> None
      | Some u \<Rightarrow> Some \<lparr>lu_user = u, lu_role = load_role st (u_roleId u)\<rparr>)"

text \<open>
  \<open>authGuard\<close>: \<open>Inl\<close> is the response that ends the request, \<open>Inr\<close> the
  request passed on to \<open>next()\<close>. A token without \<open>userId\<close> makes the query
  builder throw on the undefined \<open>where\<close> value, which the catch-all maps to 500.
  The message of the last rejection is followed in the source by the JSON of
  the claims, left out here.
\<close>

definition authGuard :: "env \<Rightarrow> store \<Rightarrow> token option \<Rightarrow> response + request" where
  "authGuard e st auth =
     (case auth of
        None \<Rightarrow> Inl (reply 401 ''Authentication token required'')
      | Some tok \<Rightarrow>
          (case jwt_verify tok (jwt_secret e) (now e) of
             Inl JsonWebTokenError \<Rightarrow> Inl (reply 403 ''Invalid token'')
           | Inl TokenExpiredError \<Rightarrow> Inl (reply 403 ''Token expired'')
           | Inr decoded \<Rightarrow>
               (case t_userId decoded of
                  None \<Rightarrow> Inl (reply 500 ''Internal server error during authentication'')
                | Some uid \<Rightarrow>
                    (case find_active_user st uid of
                       None \<Rightarrow> Inl (reply 403 ''User not found or inactive'')
                     | Some usr \<Rightarrow>
                         (let ru = (if \<not> truthy_num (t_userId decoded)
                                    then decoded\<lparr>t_userId := t_id decoded\<rparr>
                                    else decoded)
                          in if \<not> truthy_num (t_userId ru)
                             then Inl (reply 403 ''User.userId not provided. '')
                             else Inr \<lparr>req_user = Some ru,
                                       req_userRecord = Some usr,
                                       req_permissions =
                                         (case lu_role usr of
                                            None \<Rightarrow> []
                                          | Some r \<Rightarrow> map p_code (lr_permissions r))\<rparr>)))))"

text \<open>
  \<open>requirePermissions(...permissions)\<close>: reads \<open>req.userRecord.role.permissions\<close>,
  the array of Permission instances loaded by the guard, and searches it for
  each required code with \<open>includes\<close>.
\<close>

definition requirePermissions :: "string list \<Rightarrow> request \<Rightarrow> response + request" where
  "requirePermissions required req =
     (case req_userRecord req of
        None \<Rightarrow> Inl (reply 401 ''Authentication required with full user record'')
      | Some usr \<Rightarrow>
          (case lu_role usr of
             None \<Rightarrow> Inl (reply 401 ''Authentication required with full user record'')
           | Some r \<Rightarrow>
               (let userPermissions = map JObj (lr_permissions r)
                in if \<not> list_all (array_includes userPermissions) required
                   then Inl (reply 403
                     ''You do not have the required permissions to access this resource'')
                   else Inr req)))"

section \<open>Store operations (ORM)\<close>

text \<open>
  An auto-increment key: larger than every key in the table. Rows are only ever
  soft-deleted, so such a key was never used before.
\<close>

definition fresh_id :: "nat list \<Rightarrow> nat" where
  "fresh_id ids = Suc (fold max ids 0)"

definition findUserByPk :: "store \<Rightarrow> nat \<Rightarrow> user option" where
  "findUserByPk st uid = find (\<lambda>u. u_id u = uid) (users st)"

definition findUserByEmail :: "store \<Rightarrow> string \<Rightarrow> user option" where
  "findUserByEmail st em = find (\<lambda>u. u_email u = em) (users st)"

text \<open>
  \<open>User.create\<close>: the model validates the e-mail address; the key is assigned
  by the table. \<open>Inl\<close> is the thrown error's message.
\<close>

definition User_create :: "env \<Rightarrow> store \<Rightarrow> user \<Rightarrow> string + (user \<times> store)" where
  "User_create e st u =
     (if \<not> isEmail e (u_email u) then Inl ''Validation error: Validation isEmail on email failed''
      else if list_ex (\<lambda>x. u_email x = u_email u) (users st) then Inl ''Validation error''
      else (let u' = u\<lparr>u_id := fresh_id (map u_id (users st))\<rparr>
            in Inr (u', st\<lparr>users := users st @ [u']\<rparr>)))"

definition User_update :: "store \<Rightarrow> user \<Rightarrow> store" where
  "User_update st u' =
     st\<lparr>users := map (\<lambda>u. if u_id u = u_id u' then u' else u) (users st)\<rparr>"

text \<open>
  The \<open>beforeValidate\<close> hook of the UserCredential model; \<open>Some\<close> is the message
  of the error it throws.
\<close>

definition beforeValidate :: "credential \<Rightarrow> string option" where
  "beforeValidate c =
     (case c_authType c of
        Password \<Rightarrow>
          (if \<not> truthy_str (c_passwordHash c) \<or> truthy_str (c_openIdProvider c)
           then Some ''Password auth type requires password hash and no OpenID provider''
           else None)
      | OpenId \<Rightarrow>
          (if \<not> truthy_str (c_openIdProvider c) \<or> truthy_str (c_passwordHash c)
           then Some ''OpenID auth type requires provider and no password hash''
           else None))"

text \<open>
  The two unique indexes of the table: (LoginName, AuthType), and
  (OpenIDProvider, OpenIDSubject) where both are non-null.
\<close>

definition unique_violation :: "credential list \<Rightarrow> credential \<Rightarrow> bool" where
  "unique_violation cs c =
     (list_ex (\<lambda>x. c_loginName x = c_loginName c \<and> c_authType x = c_authType c) cs
      \<or> (c_openIdProvider c \<noteq> None \<and> c_openIdSubject c \<noteq> None
         \<and> list_ex (\<lambda>x. c_openIdProvider x = c_openIdProvider c
                        \<and> c_openIdSubject x = c_openIdSubject c) cs))"

definition UserCredential_create :: "store \<Rightarrow> credential \<Rightarrow> string + (credential \<times> store)" where
  "UserCredential_create st c =
     (case beforeValidate c of
        Some msg \<Rightarrow> Inl msg
      | None \<Rightarrow>
          (if unique_violation (credentials st) c then Inl ''Validation error''
           else (let c' = c\<lparr>c_id := fresh_id (map c_id (credentials st))\<rparr>
                 in Inr (c', st\<lparr>credentials := credentials st @ [c']\<rparr>))))"

text \<open>
  \<open>credential.update(values)\<close>: \<open>c'\<close> is the instance with the new values set;
  the hook runs on it, then the row with its key is rewritten.
\<close>

definition replace_row :: "credential \<Rightarrow> credential list \<Rightarrow> credential list" where
  "replace_row c' cs = map (\<lambda>c. if c_id c = c_id c' then c' else c) cs"

definition credential_update :: "store \<Rightarrow> credential \<Rightarrow> string + store" where
  "credential_update st c' =
     (case beforeValidate c' of
        Some msg \<Rightarrow> Inl msg
      | None \<Rightarrow> Inr (st\<lparr>credentials := replace_row c' (credentials st)\<rparr>))"

subsection \<open>Transactions\<close>

text \<open>
  A transaction works on a copy of the store taken when it begins. Commit
  publishes the copy, rollback drops it; either one on a transaction that is
  already finished throws.
\<close>

datatype tx_status = TxOpen | TxCommitted | TxRolledBack

record transaction =
  tx_base :: store
  tx_work :: store
  tx_state :: tx_status

definition tx_begin :: "store \<Rightarrow> transaction" where
  "tx_begin st = \<lparr>tx_base = st, tx_work = st, tx_state = TxOpen\<rparr>"

definition tx_commit :: "transaction \<Rightarrow> string + transaction" where
  "tx_commit tx =
     (if tx_state tx = TxOpen then Inr (tx\<lparr>tx_state := TxCommitted\<rparr>)
      else Inl ''Transaction cannot be committed because it has been finished'')"

definition tx_rollback :: "transaction \<Rightarrow> string + transaction" where
  "tx_rollback tx =
     (if tx_state tx = TxOpen then Inr (tx\<lparr>tx_state := TxRolledBack\<rparr>)
      else Inl ''Transaction cannot be rolled back because it has been finished'')"

text \<open>The store every other request sees once the handler is done.\<close>

definition tx_visible :: "transaction \<Rightarrow> store" where
  "tx_visible tx = (if tx_state tx = TxCommitted then tx_work tx else tx_base tx)"

section \<open>Token issuers\<close>

text \<open>\<open>generateToken\<close> of apis/auth-api.js, used by login and OpenID.\<close>

definition generateToken :: "env \<Rightarrow> user \<Rightarrow> credential \<Rightarrow> token" where
  "generateToken e u c =
     jwt_sign \<lparr>t_userId = Some (u_id u), t_id = None, t_email = Some (u_email u),
                t_loginName = Some (c_loginName c), t_authType = Some (c_authType c),
                t_roleId = u_roleId u, t_avatarId = u_avatarId u, t_credentialId = None\<rparr>
       (jwt_secret e) (jwt_expiresIn e) (now e)"

text \<open>\<open>UserService.generateToken\<close>, used by registration.\<close>

definition UserService_generateToken :: "env \<Rightarrow> user \<Rightarrow> credential \<Rightarrow> token" where
  "UserService_generateToken e u c =
     jwt_sign \<lparr>t_userId = Some (u_id u), t_id = None, t_email = None,
                t_loginName = None, t_authType = None,
                t_roleId = u_roleId u, t_avatarId = None, t_credentialId = Some (c_id c)\<rparr>
       (jwt_secret e) (jwt_expiresIn e) (now e)"

text \<open>The token mailed by \<open>POST /reset-password-request\<close>; it expires after one hour.\<close>

definition resetToken :: "env \<Rightarrow> user \<Rightarrow> token" where
  "resetToken e u =
     jwt_sign (no_claims\<lparr>t_userId := Some (u_id u), t_email := Some (u_email u)\<rparr>)
       (jwt_secret e) 3600 (now e)"

section \<open>Login (POST /login)\<close>

text \<open>
  Request body fields are strings, a missing field being the empty string: the
  handlers test them for truthiness only.

  The credential query joins the owning user with \<open>isActive\<close> and not
  \<open>isDeleted\<close> as a required include.
\<close>

definition login_findCredential :: "store \<Rightarrow> string \<Rightarrow> (credential \<times> user) option" where
  "login_findCredential st ln =
     (case find (\<lambda>c. c_loginName c = ln \<and> c_authType c = Password
                      \<and> c_isActive c \<and> \<not> c_isDeleted c
                      \<and> (case findUserByPk st (c_userId c) of
                            None \<Rightarrow> False
                          | Some u \<Rightarrow> u_isActive u \<and> \<not> u_isDeleted u))
             (credentials st) of
        None \<Rightarrow> None
      | Some c \<Rightarrow>
          (case findUserByPk st (c_userId c) of
             None \<Rightarrow> None
           | Some u \<Rightarrow> Some (c, u)))"

text \<open>
  A null hash makes \<open>bcrypt.compare\<close> throw, which the handler's catch maps to
  500. The user summary of the success response is left out.
\<close>

definition login :: "env \<Rightarrow> store \<Rightarrow> string \<Rightarrow> string \<Rightarrow> response" where
  "login e st loginName password =
     (if loginName = [] \<or> password = []
      then reply 400 ''Login name and password are required''
      else
        (case login_findCredential st loginName of
           None \<Rightarrow> reply 401 ''Invalid login credentials''
         | Some (c, u) \<Rightarrow>
             (if c_passwordExpired c
              then reply 401 ''Password has expired. Please reset your password.''
              else
                (case c_passwordHash c of
                   None \<Rightarrow> reply 500 ''Login failed''
                 | Some h \<Rightarrow>
                     (if \<not> bcrypt_compare e password h
                      then reply 401 ''Invalid login credentials''
                      else \<lparr>status = 200, message = ''Login successful'',
                             r_token = Some (generateToken e u c)\<rparr>)))))"

section \<open>Registration (UserService.registerUser, POST /register)\<close>

record register_result =
  rr_message :: string
  rr_token :: token
  rr_user :: user

definition new_user :: "string \<Rightarrow> string \<Rightarrow> string \<Rightarrow> nat \<Rightarrow> user" where
  "new_user em fn ln rid =
     \<lparr>u_id = 0, u_email = em, u_firstName = fn, u_lastName = ln, u_roleId = Some rid,
      u_avatarId = None, u_isActive = True, u_isDeleted = False\<rparr>"

definition new_password_credential :: "env \<Rightarrow> nat \<Rightarrow> string \<Rightarrow> string \<Rightarrow> credential" where
  "new_password_credential e uid ln pw =
     \<lparr>c_id = 0, c_userId = uid, c_authType = Password, c_loginName = ln,
      c_passwordHash = Some (bcrypt_hash e pw (bcrypt_genSalt e)),
      c_passwordSalt = Some (bcrypt_genSalt e),
      c_lastPasswordChange = Some (now e), c_passwordExpired = False,
      c_openIdProvider = None, c_openIdSubject = None,
      c_isActive = True, c_isDeleted = False\<rparr>"

text \<open>The first step of the try block: find the user by e-mail, or create it.\<close>

definition register_findOrCreateUser ::
    "env \<Rightarrow> store \<Rightarrow> string \<Rightarrow> string \<Rightarrow> string \<Rightarrow> nat option \<Rightarrow> string + (user \<times> store)" where
  "register_findOrCreateUser e w em fn ln rid =
     (case findUserByEmail w em of
        Some u \<Rightarrow> Inr (u, w)
      | None \<Rightarrow>
          User_create e w (new_user em fn ln (if truthy_num rid then the rid else 1)))"

text \<open>
  The try block. The result pairs what the block returns or throws (\<open>Inl\<close> the
  error message) with the transaction as it stands at that point.
\<close>

definition registerUser_try ::
    "env \<Rightarrow> transaction \<Rightarrow> string \<Rightarrow> string \<Rightarrow> string \<Rightarrow> string \<Rightarrow> string \<Rightarrow> nat option
      \<Rightarrow> (string + register_result) \<times> transaction" where
  "registerUser_try e tx em pw fn ln loginName rid =
     (case register_findOrCreateUser e (tx_work tx) em fn ln rid of
        Inl err \<Rightarrow> (Inl err, tx)
      | Inr (u, w1) \<Rightarrow>
          (let tx1 = tx\<lparr>tx_work := w1\<rparr> in
           if list_ex (\<lambda>c. c_loginName c = loginName \<and> c_authType c = Password)
                (credentials w1)
           then (case tx_rollback tx1 of
                   Inl err \<Rightarrow> (Inl err, tx1)
                 | Inr tx2 \<Rightarrow> (Inl ''Login name already in use'', tx2))
           else
             (case UserCredential_create w1
                     (new_password_credential e (u_id u) loginName pw) of
                Inl err \<Rightarrow> (Inl err, tx1)
              | Inr (c, w2) \<Rightarrow>
                  (case tx_commit (tx1\<lparr>tx_work := w2\<rparr>) of
                     Inl err \<Rightarrow> (Inl err, tx1\<lparr>tx_work := w2\<rparr>)
                   | Inr tx3 \<Rightarrow>
                       (Inr \<lparr>rr_message = ''User registered successfully'',
                             rr_token = UserService_generateToken e u c,
                             rr_user = u\<rparr>, tx3)))))"

text \<open>
  The whole method: the catch block rolls the transaction back and rethrows;
  when the rollback itself throws, that error is the one that leaves the method.
\<close>

definition registerUser ::
    "env \<Rightarrow> store \<Rightarrow> string \<Rightarrow> string \<Rightarrow> string \<Rightarrow> string \<Rightarrow> string \<Rightarrow> nat option
      \<Rightarrow> (string + register_result) \<times> store" where
  "registerUser e st em pw fn ln loginName rid =
     (case registerUser_try e (tx_begin st) em pw fn ln loginName rid of
        (Inr res, tx) \<Rightarrow> (Inr res, tx_visible tx)
      | (Inl err, tx) \<Rightarrow>
          (case tx_rollback tx of
             Inl err' \<Rightarrow> (Inl err', tx_visible tx)
           | Inr tx' \<Rightarrow> (Inl err, tx_visible tx')))"

text \<open>\<open>s.includes(sub)\<close> on strings.\<close>

fun str_includes :: "string \<Rightarrow> string \<Rightarrow> bool" where
  "str_includes [] sub = (sub = [])"
| "str_includes (x # xs) sub = (take (length sub) (x # xs) = sub \<or> str_includes xs sub)"

definition register :: 
    "env \<Rightarrow> store \<Rightarrow> string \<Rightarrow> string \<Rightarrow> string \<Rightarrow> string \<Rightarrow> string \<Rightarrow> nat option
      \<Rightarrow> response \<times> store" where
  "register e st em pw fn ln loginName rid =
     (if em = [] \<or> pw = [] \<or> fn = [] \<or> ln = [] \<or> loginName = []
      then (reply 400
        ''Email, password, first name, last name, and login name are required'', st)
      else
        (case registerUser e st em pw fn ln loginName rid of
           (Inr res, st') \<Rightarrow>
             (\<lparr>status = 201, message = rr_message res, r_token = Some (rr_token res)\<rparr>, st')
         | (Inl err, st') \<Rightarrow>
             (reply (if str_includes err ''already in use'' then 409 else 500)
                (if err = [] then ''Registration failed'' else err), st')))"

section \<open>OpenID login (POST /openid)\<close>

datatype outcome = Replied response | Unhandled string

definition openid_findCredential :: "store \<Rightarrow> string \<Rightarrow> string \<Rightarrow> credential option" where
  "openid_findCredential st provider subject =
     find (\<lambda>c. c_openIdProvider c = Some provider \<and> c_openIdSubject c = Some subject
                \<and> c_isActive c \<and> \<not> c_isDeleted c) (credentials st)"

definition new_openid_credential :: "nat \<Rightarrow> string \<Rightarrow> string \<Rightarrow> string \<Rightarrow> credential" where
  "new_openid_credential uid loginName provider subject =
     \<lparr>c_id = 0, c_userId = uid, c_authType = OpenId, c_loginName = loginName,
      c_passwordHash = None, c_passwordSalt = None,
      c_lastPasswordChange = None, c_passwordExpired = False,
      c_openIdProvider = Some provider, c_openIdSubject = Some subject,
      c_isActive = True, c_isDeleted = False\<rparr>"

definition openid_findOrCreateUser ::
    "env \<Rightarrow> store \<Rightarrow> string \<Rightarrow> string \<Rightarrow> string \<Rightarrow> string + (user \<times> store)" where
  "openid_findOrCreateUser e w em fn ln =
     (case findUserByEmail w em of
        Some u \<Rightarrow> Inr (u, w)
      | None \<Rightarrow> User_create e w (new_user em fn ln 1))"

definition commit_with ::
    "transaction \<Rightarrow> user option \<Rightarrow> credential
      \<Rightarrow> (string + (user option \<times> credential)) \<times> transaction" where
  "commit_with tx u c =
     (case tx_commit tx of
        Inl err \<Rightarrow> (Inl err, tx)
      | Inr tx' \<Rightarrow> (Inr (u, c), tx'))"

text \<open>
  The try block up to the commit. It returns the handler's \<open>user\<close> (null when
  the joined user row is missing) and \<open>credential\<close>.
\<close>

definition openid_try ::
    "env \<Rightarrow> transaction \<Rightarrow> string \<Rightarrow> string \<Rightarrow> string \<Rightarrow> string \<Rightarrow> string \<Rightarrow> string
      \<Rightarrow> (string + (user option \<times> credential)) \<times> transaction" where
  "openid_try e tx provider subject em fn ln loginName =
     (case openid_findCredential (tx_work tx) provider subject of
        Some c \<Rightarrow>
          (if fn \<noteq> [] \<or> ln \<noteq> []
           then
             (case findUserByPk (tx_work tx) (c_userId c) of
                None \<Rightarrow> (Inl ''Cannot read properties of null'', tx)
              | Some u \<Rightarrow>
                  (let u' = u\<lparr>u_firstName := (if fn \<noteq> [] then fn else u_firstName u),
                               u_lastName := (if ln \<noteq> [] then ln else u_lastName u)\<rparr>
                   in commit_with (tx\<lparr>tx_work := User_update (tx_work tx) u'\<rparr>) (Some u') c))
           else commit_with tx (findUserByPk (tx_work tx) (c_userId c)) c)
      | None \<Rightarrow>
          (case openid_findOrCreateUser e (tx_work tx) em fn ln of
             Inl err \<Rightarrow> (Inl err, tx)
           | Inr (u, w1) \<Rightarrow>
               (case UserCredential_create w1
                       (new_openid_credential (u_id u) loginName provider subject) of
                  Inl err \<Rightarrow> (Inl err, tx\<lparr>tx_work := w1\<rparr>)
                | Inr (c, w2) \<Rightarrow> commit_with (tx\<lparr>tx_work := w2\<rparr>) (Some u) c)))"

text \<open>The catch block: roll back and answer 500; a throwing rollback is not caught.\<close>

definition openid_catch :: "transaction \<Rightarrow> outcome \<times> store" where
  "openid_catch tx =
     (case tx_rollback tx of
        Inl err \<Rightarrow> (Unhandled err, tx_visible tx)
      | Inr tx' \<Rightarrow> (Replied (reply 500 ''Authentication failed''), tx_visible tx'))"

text \<open>
  The handler. Besides the response and the store it returns the credential the
  handler ended with (the one whose login name and type go into the token).
\<close>

definition openid ::
    "env \<Rightarrow> store \<Rightarrow> string \<Rightarrow> string \<Rightarrow> string \<Rightarrow> string \<Rightarrow> string \<Rightarrow> string
      \<Rightarrow> outcome \<times> credential option \<times> store" where
  "openid e st provider subject em fn ln loginName =
     (if provider = [] \<or> subject = [] \<or> em = [] \<or> loginName = []
      then (Replied (reply 400 ''Provider, subject, email, and login name are required''),
            None, st)
      else
        (case openid_try e (tx_begin st) provider subject em fn ln loginName of
           (Inr (Some u, c), tx) \<Rightarrow>
             (Replied \<lparr>status = 200, message = ''OpenID authentication successful'',
                       r_token = Some (generateToken e u c)\<rparr>, Some c, tx_visible tx)
         | (Inr (None, c), tx) \<Rightarrow>
             (case openid_catch tx of (out, st') \<Rightarrow> (out, Some c, st'))
         | (Inl err, tx) \<Rightarrow>
             (case openid_catch tx of (out, st') \<Rightarrow> (out, None, st'))))"

section \<open>Password change and reset\<close>

text \<open>\<open>authenticateToken\<close> of apis/auth-api.js: signature and expiry only.\<close>

definition authenticateToken :: "env \<Rightarrow> token option \<Rightarrow> response + claims" where
  "authenticateToken e auth =
     (case auth of
        None \<Rightarrow> Inl (reply 401 ''Authentication token required'')
      | Some tok \<Rightarrow>
          (case jwt_verify tok (jwt_secret e) (now e) of
             Inl err \<Rightarrow> Inl (reply 403 ''Invalid or expired token'')
           | Inr decoded \<Rightarrow> Inr decoded))"

definition find_password_credential :: "store \<Rightarrow> nat \<Rightarrow> credential option" where
  "find_password_credential st uid =
     find (\<lambda>c. c_userId c = uid \<and> c_authType c = Password
                \<and> c_isActive c \<and> \<not> c_isDeleted c) (credentials st)"

definition set_password :: "env \<Rightarrow> credential \<Rightarrow> string \<Rightarrow> credential" where
  "set_password e c pw =
     c\<lparr>c_passwordHash := Some (bcrypt_hash e pw (bcrypt_genSalt e)),
       c_passwordSalt := Some (bcrypt_genSalt e),
       c_lastPasswordChange := Some (now e),
       c_passwordExpired := False\<rparr>"

text \<open>
  \<open>POST /change-password\<close>, behind \<open>authenticateToken\<close>. A token without
  \<open>userId\<close>, a null hash and a throwing hook all end in the catch block (500).
\<close>

definition change_password ::
    "env \<Rightarrow> store \<Rightarrow> token option \<Rightarrow> string \<Rightarrow> string \<Rightarrow> response \<times> store" where
  "change_password e st auth currentPassword newPassword =
     (case authenticateToken e auth of
        Inl r \<Rightarrow> (r, st)
      | Inr decoded \<Rightarrow>
          (if currentPassword = [] \<or> newPassword = []
           then (reply 400 ''Current password and new password are required'', st)
           else if length newPassword < 8
           then (reply 400 ''Password must be at least 8 characters long'', st)
           else
             (case t_userId decoded of
                None \<Rightarrow> (reply 500 ''Password change failed'', st)
              | Some uid \<Rightarrow>
                  (case find_password_credential st uid of
                     None \<Rightarrow> (reply 400 ''No password credential found for this user'', st)
                   | Some c \<Rightarrow>
                       (case c_passwordHash c of
                          None \<Rightarrow> (reply 500 ''Password change failed'', st)
                        | Some h \<Rightarrow>
                            (if \<not> bcrypt_compare e currentPassword h
                             then (reply 400 ''Current password is incorrect'', st)
                             else
                               (case credential_update st (set_password e c newPassword) of
                                  Inl err \<Rightarrow> (reply 500 ''Password change failed'', st)
                                | Inr st' \<Rightarrow>
                                    (reply 200 ''Password changed successfully'', st'))))))))"

text \<open>
  \<open>POST /reset-password-request\<close>: the second component is the token handed to
  the mailer (delivery itself is outside the model).
\<close>

definition reset_password_request :: "env \<Rightarrow> store \<Rightarrow> string \<Rightarrow> response \<times> token option" where
  "reset_password_request e st em =
     (if em = [] then (reply 400 ''Email is required'', None)
      else
        (case findUserByEmail st em of
           None \<Rightarrow>
             (reply 200
               ''If an account with that email exists, a password reset link has been sent.'',
              None)
         | Some u \<Rightarrow>
             (reply 200
               ''If an account with that email exists, a password reset link has been sent.'',
              Some (resetToken e u))))"

definition reset_password_confirm ::
    "env \<Rightarrow> store \<Rightarrow> token option \<Rightarrow> string \<Rightarrow> response \<times> store" where
  "reset_password_confirm e st tok newPassword =
     (case tok of
        None \<Rightarrow> (reply 400 ''Reset token and new password are required'', st)
      | Some rt \<Rightarrow>
          (if newPassword = []
           then (reply 400 ''Reset token and new password are required'', st)
           else if length newPassword < 8
           then (reply 400 ''Password must be at least 8 characters long'', st)
           else
             (case jwt_verify rt (jwt_secret e) (now e) of
                Inl err \<Rightarrow> (reply 401 ''Invalid or expired reset token'', st)
              | Inr decoded \<Rightarrow>
                  (case t_userId decoded of
                     None \<Rightarrow> (reply 500 ''Password reset failed'', st)
                   | Some uid \<Rightarrow>
                       (case find_password_credential st uid of
                          None \<Rightarrow> (reply 404 ''Invalid reset token'', st)
                        | Some c \<Rightarrow>
                            (case credential_update st (set_password e c newPassword) of
                               Inl err \<Rightarrow> (reply 500 ''Password reset failed'', st)
                             | Inr st' \<Rightarrow> (reply 200 ''Password reset successful'', st')))))))"

text \<open>
  \<open>UserService.changePassword\<close>: the same update inside a transaction, with the
  owning user joined as active and not deleted.
\<close>

definition service_findCredential :: "store \<Rightarrow> nat \<Rightarrow> credential option" where
  "service_findCredential st uid =
     find (\<lambda>c. c_userId c = uid \<and> c_authType c = Password
                \<and> c_isActive c \<and> \<not> c_isDeleted c
                \<and> (case findUserByPk st (c_userId c) of
                      None \<Rightarrow> False
                    | Some u \<Rightarrow> u_isActive u \<and> \<not> u_isDeleted u))
       (credentials st)"

definition rollback_and_throw :: "transaction \<Rightarrow> string \<Rightarrow> (string + unit) \<times> transaction" where
  "rollback_and_throw tx msg =
     (case tx_rollback tx of
        Inl err \<Rightarrow> (Inl err, tx)
      | Inr tx' \<Rightarrow> (Inl msg, tx'))"

definition changePassword_try ::
    "env \<Rightarrow> transaction \<Rightarrow> nat \<Rightarrow> string \<Rightarrow> string \<Rightarrow> (string + unit) \<times> transaction" where
  "changePassword_try e tx uid currentPassword newPassword =
     (case service_findCredential (tx_work tx) uid of
        None \<Rightarrow> rollback_and_throw tx ''User not found or inactive''
      | Some c \<Rightarrow>
          (case c_passwordHash c of
             None \<Rightarrow> (Inl ''Illegal arguments: string, object'', tx)
           | Some h \<Rightarrow>
               (if \<not> bcrypt_compare e currentPassword h
                then rollback_and_throw tx ''Current password is incorrect''
                else
                  (case credential_update (tx_work tx) (set_password e c newPassword) of
                     Inl err \<Rightarrow> (Inl err, tx)
                   | Inr w \<Rightarrow>
                       (case tx_commit (tx\<lparr>tx_work := w\<rparr>) of
                          Inl err \<Rightarrow> (Inl err, tx\<lparr>tx_work := w\<rparr>)
                        | Inr tx' \<Rightarrow> (Inr (), tx'))))))"

definition changePassword ::
    "env \<Rightarrow> store \<Rightarrow> nat \<Rightarrow> string \<Rightarrow> string \<Rightarrow> (string + unit) \<times> store" where
  "changePassword e st uid currentPassword newPassword =
     (case changePassword_try e (tx_begin st) uid currentPassword newPassword of
        (Inr ok, tx) \<Rightarrow> (Inr ok, tx_visible tx)
      | (Inl err, tx) \<Rightarrow>
          (case tx_rollback tx of
             Inl err' \<Rightarrow> (Inl err', tx_visible tx)
           | Inr tx' \<Rightarrow> (Inl err, tx_visible tx')))"

section \<open>Credential deletion (DELETE /credentials/:id)\<close>

definition soft_deleted :: "credential \<Rightarrow> credential" where
  "soft_deleted c = c\<lparr>c_isActive := False, c_isDeleted := True\<rparr>"

definition find_own_credential :: "store \<Rightarrow> nat \<Rightarrow> nat \<Rightarrow> credential option" where
  "find_own_credential st cid uid =
     find (\<lambda>c. c_id c = cid \<and> c_userId c = uid \<and> c_isActive c \<and> \<not> c_isDeleted c)
       (credentials st)"

definition active_credentials :: "store \<Rightarrow> nat \<Rightarrow> credential list" where
  "active_credentials st uid =
     filter (\<lambda>c. c_userId c = uid \<and> c_isActive c \<and> \<not> c_isDeleted c) (credentials st)"

text \<open>
  The path parameter is the credential's numeric key. A token without \<open>userId\<close>
  and a throwing hook end in the catch block (500).
\<close>

definition delete_credential :: "env \<Rightarrow> store \<Rightarrow> token option \<Rightarrow> nat \<Rightarrow> response \<times> store" where
  "delete_credential e st auth credentialId =
     (case authenticateToken e auth of
        Inl r \<Rightarrow> (r, st)
      | Inr decoded \<Rightarrow>
          (case t_userId decoded of
             None \<Rightarrow> (reply 500 ''Failed to delete credential'', st)
           | Some uid \<Rightarrow>
               (case find_own_credential st credentialId uid of
                  None \<Rightarrow> (reply 404 ''Credential not found'', st)
                | Some c \<Rightarrow>
                    (if length (active_credentials st uid) \<le> 1
                     then (reply 400 ''Cannot delete the only credential for this user'', st)
                     else
                       (case credential_update st (soft_deleted c) of
                          Inl err \<Rightarrow> (reply 500 ''Failed to delete credential'', st)
                        | Inr st' \<Rightarrow> (reply 200 ''Credential deleted successfully'', st'))))))"

section \<open>The credential-writing surface as one transition function\<close>

text \<open>
  Every call that creates or updates a row of UserCredentials: registration
  (also reached from user management and invite acceptance), OpenID login, the
  two password-change paths, reset confirmation and credential deletion.
\<close>

datatype api_call =
    Register string string string string string "nat option"
  | ServiceRegister string string string string string "nat option"
  | OpenIdLogin string string string string string string
  | ChangePassword "token option" string string
  | ServiceChangePassword nat string string
  | ResetPasswordConfirm "token option" string
  | DeleteCredential "token option" nat

fun api_step :: "env \<Rightarrow> store \<Rightarrow> api_call \<Rightarrow> store" where
  "api_step e st (Register em pw fn ln loginName rid) =
     snd (register e st em pw fn ln loginName rid)"
| "api_step e st (ServiceRegister em pw fn ln loginName rid) =
     snd (registerUser e st em pw fn ln loginName rid)"
| "api_step e st (OpenIdLogin provider subject em fn ln loginName) =
     snd (snd (openid e st provider subject em fn ln loginName))"
| "api_step e st (ChangePassword auth cur new) = snd (change_password e st auth cur new)"
| "api_step e st (ServiceChangePassword uid cur new) = snd (changePassword e st uid cur new)"
| "api_step e st (ResetPasswordConfirm tok new) = snd (reset_password_confirm e st tok new)"
| "api_step e st (DeleteCredential auth cid) = snd (delete_credential e st auth cid)"

fun api_run :: "store \<Rightarrow> (env \<times> api_call) list \<Rightarrow> store" where
  "api_run st [] = st"
| "api_run st ((e, call) # rest) = api_run (api_step e st call) rest"

section \<open>Invariants and example data\<close>

text \<open>
  The mutual-exclusivity invariant of a credential row; a value is present when
  it is neither null nor empty.
\<close>

definition credential_invariant :: "credential \<Rightarrow> bool" where
  "credential_invariant c =
     (case c_authType c of
        Password \<Rightarrow> truthy_str (c_passwordHash c) \<and> c_openIdProvider c = None
      | OpenId \<Rightarrow> truthy_str (c_openIdProvider c) \<and> truthy_str (c_openIdSubject c)
                  \<and> c_passwordHash c = None)"

definition empty_store :: store where
  "empty_store = \<lparr>users = [], credentials = [], roles = [], permissions = [],
     rolePermissions = []\<rparr>"

text \<open>
  A small environment for the examples: a hash that prefixes the four-character
  salt to the password, and a matching comparison.
\<close>

definition example_env :: env where
  "example_env = \<lparr>jwt_secret = ''k'', jwt_expiresIn = 3600, now = 100,
     bcrypt_compare = (\<lambda>pw h. drop 4 h = pw),
     bcrypt_hash = (\<lambda>pw salt. salt @ pw),
     bcrypt_genSalt = ''salt'',
     isEmail = (\<lambda>s. CHR ''@'' \<in> set s)\<rparr>"

definition alice :: user where
  "alice = \<lparr>u_id = 1, u_email = ''a@x.com'', u_firstName = ''A'', u_lastName = ''B'',
     u_roleId = Some 1, u_avatarId = None, u_isActive = True, u_isDeleted = False\<rparr>"

definition alice_password :: credential where
  "alice_password = \<lparr>c_id = 1, c_userId = 1, c_authType = Password, c_loginName = ''a'',
     c_passwordHash = Some ''saltpw12345678'', c_passwordSalt = Some ''salt'',
     c_lastPasswordChange = Some 0, c_passwordExpired = False,
     c_openIdProvider = None, c_openIdSubject = None,
     c_isActive = True, c_isDeleted = False\<rparr>"

definition alice_openid :: credential where
  "alice_openid = \<lparr>c_id = 2, c_userId = 1, c_authType = OpenId, c_loginName = ''a'',
     c_passwordHash = None, c_passwordSalt = None,
     c_lastPasswordChange = None, c_passwordExpired = False,
     c_openIdProvider = Some ''idp'', c_openIdSubject = Some ''sub'',
     c_isActive = True, c_isDeleted = False\<rparr>"

definition example_store :: store where
  "example_store = \<lparr>users = [alice], credentials = [alice_password, alice_openid],
     roles = [\<lparr>r_id = 1, r_name = ''Admin''\<rparr>],
     permissions = [\<lparr>p_id = 7, p_code = ''MANAGE_ROLES''\<rparr>],
     rolePermissions = [(1, 7)]\<rparr>"

text \<open>The store after Alice registers on an empty one, and one where her password has expired.\<close>

definition registered_credential :: credential where
  "registered_credential = alice_password\<lparr>c_lastPasswordChange := Some 100\<rparr>"

definition registered_store :: store where
  "registered_store = empty_store\<lparr>users := [alice], credentials := [registered_credential]\<rparr>"

definition expired_store :: store where
  "expired_store =
     example_store\<lparr>credentials := [alice_password\<lparr>c_passwordExpired := True\<rparr>]\<rparr>"

text \<open>The user a request is authenticated as: the \<open>userId\<close> claim of a token that verifies.\<close>

definition token_user :: "env \<Rightarrow> token option \<Rightarrow> nat option" where
  "token_user e auth =
     (case authenticateToken e auth of
        Inl r \<Rightarrow> None
      | Inr decoded \<Rightarrow> t_userId decoded)"

text \<open>Alice's session token, as login issues it, and its claims.\<close>

definition alice_claims :: claims where
  "alice_claims = \<lparr>t_userId = Some 1, t_id = None, t_email = Some ''a@x.com'',
     t_loginName = Some ''a'', t_authType = Some Password, t_roleId = Some 1,
     t_avatarId = None, t_credentialId = None\<rparr>"

definition alice_token :: token where
  "alice_token = Signed ''k'' alice_claims 3700"

text \<open>A second user, Bob, with a password credential of his own.\<close>

definition bob :: user where
  "bob = \<lparr>u_id = 2, u_email = ''b@x.com'', u_firstName = ''B'', u_lastName = ''C'',
     u_roleId = Some 1, u_avatarId = None, u_isActive = True, u_isDeleted = False\<rparr>"

definition bob_password :: credential where
  "bob_password = \<lparr>c_id = 3, c_userId = 2, c_authType = Password, c_loginName = ''b'',
     c_passwordHash = Some ''saltpw87654321'', c_passwordSalt = Some ''salt'',
     c_lastPasswordChange = Some 0, c_passwordExpired = False,
     c_openIdProvider = None, c_openIdSubject = None,
     c_isActive = True, c_isDeleted = False\<rparr>"

definition two_user_store :: store where
  "two_user_store = example_store\<lparr>users := [alice, bob],
     credentials := [alice_password, alice_openid, bob_password]\<rparr>"

text \<open>Bob's OpenID credential, and the store after his first OpenID login on the example store.\<close>

definition bob_openid :: credential where
  "bob_openid = \<lparr>c_id = 3, c_userId = 2, c_authType = OpenId, c_loginName = ''b'',
     c_passwordHash = None, c_passwordSalt = None,
     c_lastPasswordChange = None, c_passwordExpired = False,
     c_openIdProvider = Some ''idp2'', c_openIdSubject = Some ''sub2'',
     c_isActive = True, c_isDeleted = False\<rparr>"

definition openid_store :: store where
  "openid_store = example_store\<lparr>users := [alice, bob],
     credentials := [alice_password, alice_openid, bob_openid]\<rparr>"

text \<open>Every stored credential satisfies the invariant; for a transaction, on both copies.\<close>

definition credentials_ok :: "store \<Rightarrow> bool" where
  "credentials_ok st = list_all credential_invariant (credentials st)"

definition tx_ok :: "transaction \<Rightarrow> bool" where
  "tx_ok tx = (credentials_ok (tx_base tx) \<and> credentials_ok (tx_work tx))"

text \<open>What the Auth Guard attaches to a request that bears Alice's session token.\<close>

definition alice_request :: request where
  "alice_request =
     \<lparr>req_user = Some alice_claims,
      req_userRecord = Some \<lparr>lu_user = alice,
        lu_role = Some \<lparr>lr_id = 1, lr_name = ''Admin'',
          lr_permissions = [\<lparr>p_id = 7, p_code = ''MANAGE_ROLES''\<rparr>]\<rparr>\<rparr>,
      req_permissions = [''MANAGE_ROLES'']\<rparr>"

section \<open>Permission gate\<close>

lemma array_includes_objects: "array_includes (map JObj ps) s = False"
  by (induction ps) simp_all

lemma requirePermissions_nonempty_rejects:
  assumes "required \<noteq> []"
  shows "requirePermissions required req \<noteq> Inr req'"
proof -
  obtain x xs where "required = x # xs"
    using assms by (cases required) auto
  then show ?thesis
    by (simp add: requirePermissions_def array_includes_objects
        split: option.splits)
qed

text \<open>
  C1. After the Auth Guard, \<open>requirePermissions(codes)\<close> should let the request
  through exactly when every required code is in the permission list the guard
  attached. Evaluated on a user whose role holds \<open>MANAGE_ROLES\<close>: the guard
  passes and attaches the list \<open>[MANAGE_ROLES]\<close>, yet the gate requiring
  \<open>MANAGE_ROLES\<close> answers 403, because it searches the role's Permission objects
  for the code string.
\<close>

theorem requirePermissions_rejects_held_permission:
  "generateToken example_env alice alice_password = alice_token
   \<and> authGuard example_env example_store (Some alice_token) = Inr alice_request
   \<and> req_permissions alice_request = [''MANAGE_ROLES'']
   \<and> requirePermissions [''MANAGE_ROLES''] alice_request =
        Inl (reply 403
          ''You do not have the required permissions to access this resource'')"
  by (simp add: authGuard_def generateToken_def jwt_sign_def example_env_def example_store_def
      alice_def alice_password_def find_active_user_def load_role_def role_permissions_def
      truthy_num_def requirePermissions_def reply_def alice_token_def alice_claims_def
      alice_request_def)

section \<open>Queries under unique keys\<close>

lemma find_distinct_key:
  assumes "distinct (map f xs)" and "x \<in> set xs" and "P x"
    and "\<And>y. P y \<Longrightarrow> f y = f x"
  shows "find P xs = Some x"
  using assms(1,2)
proof (induction xs)
  case Nil
  then show ?case by simp
next
  case (Cons a xs)
  show ?case
  proof (cases "P a")
    case True
    have "f a = f x" using True by (rule assms(4))
    moreover have "f x \<noteq> f a" if "x \<noteq> a"
    proof -
      have "x \<in> set xs" using that Cons.prems(2) by simp
      then have "f x \<in> f ` set xs" by (rule imageI)
      moreover have "f a \<notin> f ` set xs" using Cons.prems(1) by simp
      ultimately show ?thesis by auto
    qed
    ultimately have "a = x" by auto
    then show ?thesis using True by simp
  next
    case False
    then have "x \<noteq> a" using assms(3) by auto
    then have "x \<in> set xs" using Cons.prems(2) by simp
    moreover have "distinct (map f xs)" using Cons.prems(1) by simp
    ultimately have "find P xs = Some x" by (rule Cons.IH [rotated])
    then show ?thesis using False by simp
  qed
qed

lemma login_findCredential_unique:
  assumes "c \<in> set (credentials st)" and "c_authType c = Password"
    and "c_isActive c" and "\<not> c_isDeleted c"
    and "findUserByPk st (c_userId c) = Some u" and "u_isActive u" and "\<not> u_isDeleted u"
    and "distinct (map (\<lambda>x. (c_loginName x, c_authType x)) (credentials st))"
  shows "login_findCredential st (c_loginName c) = Some (c, u)"
proof -
  let ?P = "\<lambda>x. c_loginName x = c_loginName c \<and> c_authType x = Password
                      \<and> c_isActive x \<and> \<not> c_isDeleted x
                      \<and> (case findUserByPk st (c_userId x) of
                            None \<Rightarrow> False
                          | Some u \<Rightarrow> u_isActive u \<and> \<not> u_isDeleted u)"
  have "find ?P (credentials st) = Some c"
  proof (rule find_distinct_key [where f = "\<lambda>x. (c_loginName x, c_authType x)"])
    show "distinct (map (\<lambda>x. (c_loginName x, c_authType x)) (credentials st))"
      by (fact assms(8))
    show "c \<in> set (credentials st)" by (fact assms(1))
    show "?P c" using assms(2-7) by simp
    fix y :: credential
    assume "?P y"
    then show "(c_loginName y, c_authType y) = (c_loginName c, c_authType c)"
      using assms(2) by simp
  qed
  then show ?thesis
    using assms(5) by (simp add: login_findCredential_def)
qed

section \<open>Claims of the issued tokens\<close>

lemma alice_fields: "u_id alice = 1" "u_roleId alice = Some 1"
  by (simp_all add: alice_def)

lemma empty_store_credentials: "credentials empty_store = []"
  by (simp add: empty_store_def)

lemma register_example_user:
  "register_findOrCreateUser example_env empty_store ''a@x.com'' ''A'' ''B'' None
     = Inr (alice, empty_store\<lparr>users := [alice]\<rparr>)"
  by (simp add: register_findOrCreateUser_def findUserByEmail_def User_create_def new_user_def
      truthy_num_def fresh_id_def example_env_def empty_store_def alice_def Let_def)

lemma register_example_credential:
  "UserCredential_create (empty_store\<lparr>users := [alice]\<rparr>)
       (new_password_credential example_env (u_id alice) ''a'' ''pw12345678'')
     = Inr (registered_credential, registered_store)"
  by (simp add: UserCredential_create_def beforeValidate_def truthy_str_def unique_violation_def
      new_password_credential_def fresh_id_def example_env_def empty_store_def alice_password_def
      Let_def registered_credential_def registered_store_def alice_fields)

lemma registerUser_try_example:
  "registerUser_try example_env (tx_begin empty_store)
       ''a@x.com'' ''pw12345678'' ''A'' ''B'' ''a'' None
     = (Inr \<lparr>rr_message = ''User registered successfully'',
              rr_token = UserService_generateToken example_env alice registered_credential,
              rr_user = alice\<rparr>,
        \<lparr>tx_base = empty_store, tx_work = registered_store, tx_state = TxCommitted\<rparr>)"
  by (simp add: registerUser_try_def tx_begin_def register_example_user
      register_example_credential Let_def tx_commit_def empty_store_credentials)

lemma registerUser_example:
  "registerUser example_env empty_store ''a@x.com'' ''pw12345678'' ''A'' ''B'' ''a'' None
     = (Inr \<lparr>rr_message = ''User registered successfully'',
              rr_token = UserService_generateToken example_env alice registered_credential,
              rr_user = alice\<rparr>, registered_store)"
  by (simp add: registerUser_def registerUser_try_example tx_visible_def)

lemma register_example:
  "register example_env empty_store ''a@x.com'' ''pw12345678'' ''A'' ''B'' ''a'' None =
     (\<lparr>status = 201, message = ''User registered successfully'',
       r_token = Some (Signed ''k''
         \<lparr>t_userId = Some 1, t_id = None, t_email = None, t_loginName = None,
          t_authType = None, t_roleId = Some 1, t_avatarId = None,
          t_credentialId = Some 1\<rparr> 3700)\<rparr>, registered_store)"
  apply (simp add: register_def registerUser_example)
  apply (simp add: UserService_generateToken_def jwt_sign_def alice_fields
       registered_credential_def alice_password_def example_env_def)
  done

lemma login_example:
  "login example_env registered_store ''a'' ''pw12345678'' =
     \<lparr>status = 200, message = ''Login successful'',
       r_token = Some (Signed ''k''
         \<lparr>t_userId = Some 1, t_id = None, t_email = Some ''a@x.com'',
          t_loginName = Some ''a'', t_authType = Some Password, t_roleId = Some 1,
          t_avatarId = None, t_credentialId = None\<rparr> 3700)\<rparr>"
  by (simp add: login_def login_findCredential_def findUserByPk_def registered_store_def
      registered_credential_def alice_password_def alice_def empty_store_def
      generateToken_def jwt_sign_def example_env_def)

text \<open>
  C3. Every session token issued on login, registration or OpenID should carry
  the one claim set userId, email, loginName, authType, roleId, avatarId.
  Evaluated on the registration of Alice on an empty store followed by her
  login: the login token carries userId, email, loginName, authType and roleId
  (and the user's avatarId, which is undefined), while the registration token
  carries userId, roleId and credentialId only.
\<close>

theorem register_token_differs_from_login_token:
  "register example_env empty_store ''a@x.com'' ''pw12345678'' ''A'' ''B'' ''a'' None =
     (\<lparr>status = 201, message = ''User registered successfully'',
       r_token = Some (Signed ''k''
         \<lparr>t_userId = Some 1, t_id = None, t_email = None, t_loginName = None,
          t_authType = None, t_roleId = Some 1, t_avatarId = None,
          t_credentialId = Some 1\<rparr> 3700)\<rparr>, registered_store)
   \<and> login example_env registered_store ''a'' ''pw12345678'' =
     \<lparr>status = 200, message = ''Login successful'',
       r_token = Some (Signed ''k''
         \<lparr>t_userId = Some 1, t_id = None, t_email = Some ''a@x.com'',
          t_loginName = Some ''a'', t_authType = Some Password, t_roleId = Some 1,
          t_avatarId = None, t_credentialId = None\<rparr> 3700)\<rparr>"
  using register_example login_example by (rule conjI)

section \<open>Reset tokens at the Auth Guard\<close>

text \<open>
  C2 as stated: a password-reset token presented as a session bearer token is
  rejected by the Auth Guard. It fails for the token mailed to Alice: the guard
  lets the request through, with the token's two claims as \<open>req.user\<close>.
\<close>

theorem reset_token_accepted_counterexample:
  "reset_password_request example_env example_store ''a@x.com'' =
     (reply 200 ''If an account with that email exists, a password reset link has been sent.'',
      Some (resetToken example_env alice))
   \<and> authGuard example_env example_store (Some (resetToken example_env alice)) =
       Inr (alice_request\<lparr>req_user :=
              Some (no_claims\<lparr>t_userId := Some 1, t_email := Some ''a@x.com''\<rparr>)\<rparr>)"
  by (simp add: reset_password_request_def findUserByEmail_def authGuard_def resetToken_def
      jwt_sign_def example_env_def example_store_def no_claims_def
      alice_def find_active_user_def load_role_def role_permissions_def
      truthy_num_def reply_def alice_request_def)

text \<open>
  C2 (amended). The Auth Guard does not tell a reset token from a session token:
  under the signing secret, a reset token issued for user \<open>u\<close> passes the guard
  exactly when it has not expired (one hour), the user id is non-zero and the
  live lookup finds an active, non-deleted user with that id.
\<close>

theorem authGuard_reset_token:
  assumes "jwt_secret e' = jwt_secret e"
  shows "(\<not> isl (authGuard e' st (Some (resetToken e u)))) \<longleftrightarrow>
         (now e' < now e + 3600 \<and> u_id u \<noteq> 0 \<and> find_active_user st (u_id u) \<noteq> None)"
  using assms
  by (auto simp: authGuard_def resetToken_def jwt_sign_def no_claims_def truthy_num_def
      Let_def split: option.splits)

theorem authGuard_reset_token_witness:
  "jwt_secret example_env = jwt_secret example_env
   \<and> \<not> isl (authGuard example_env example_store (Some (resetToken example_env alice)))"
  using authGuard_reset_token [of example_env example_env example_store alice]
  by (simp add: example_env_def example_store_def alice_def find_active_user_def)

section \<open>Login\<close>

lemma example_store_alice_password:
  "alice_password \<in> set (credentials example_store)"
  "c_authType alice_password = Password" "c_isActive alice_password"
  "\<not> c_isDeleted alice_password" "\<not> c_passwordExpired alice_password"
  "c_passwordHash alice_password = Some ''saltpw12345678''"
  "c_loginName alice_password = ''a''"
  by (simp_all add: example_store_def alice_password_def)

lemma example_store_alice:
  "findUserByPk example_store (c_userId alice_password) = Some alice"
  "u_isActive alice" "\<not> u_isDeleted alice"
  by (simp_all add: example_store_def alice_def alice_password_def findUserByPk_def)

lemma example_store_login_index:
  "distinct (map (\<lambda>x. (c_loginName x, c_authType x)) (credentials example_store))"
  by (simp add: example_store_def alice_password_def alice_openid_def)

lemma example_env_compare:
  "bcrypt_compare example_env ''pw12345678'' ''saltpw12345678''"
  by (simp add: example_env_def)

text \<open>
  C4 as stated: on an expired password, login fails with the generic 401
  invalid-credentials response. It fails for Alice's expired credential: the
  status is 401, but the response is the distinct password-expired one.
\<close>

theorem login_expired_counterexample:
  "login example_env expired_store ''a'' ''pw12345678'' =
     reply 401 ''Password has expired. Please reset your password.''
   \<and> reply 401 ''Password has expired. Please reset your password.'' \<noteq>
     reply 401 ''Invalid login credentials''"
  by (simp add: login_def login_findCredential_def findUserByPk_def expired_store_def
      example_store_def alice_password_def alice_def example_env_def reply_def)

text \<open>
  C4 (amended). For a stored active, non-deleted password credential with a
  hash, whose owner is active and non-deleted, under the unique index on
  (LoginName, AuthType), and for a non-empty login name and password: when the
  password is not expired and matches the hash, login answers 200 with a token
  whose verified userId is the credential's owner; when it does not match,
  login answers the generic 401; when the password is expired, login answers
  401 with the password-expired message, whatever the password.
\<close>

theorem login_outcomes:
  assumes "c \<in> set (credentials st)" and "c_authType c = Password"
    and "c_isActive c" and "\<not> c_isDeleted c"
    and "findUserByPk st (c_userId c) = Some u" and "u_isActive u" and "\<not> u_isDeleted u"
    and "distinct (map (\<lambda>x. (c_loginName x, c_authType x)) (credentials st))"
    and "c_passwordHash c = Some h"
    and "c_loginName c \<noteq> []" and "password \<noteq> []"
  shows "(\<not> c_passwordExpired c \<and> bcrypt_compare e password h \<longrightarrow>
            login e st (c_loginName c) password =
              \<lparr>status = 200, message = ''Login successful'',
               r_token = Some (generateToken e u c)\<rparr>
            \<and> (\<forall>clock < now e + jwt_expiresIn e.
                  map_sum id t_userId (jwt_verify (generateToken e u c) (jwt_secret e) clock)
                    = Inr (Some (c_userId c))))
       \<and> (\<not> c_passwordExpired c \<and> \<not> bcrypt_compare e password h \<longrightarrow>
            login e st (c_loginName c) password = reply 401 ''Invalid login credentials'')
       \<and> (c_passwordExpired c \<longrightarrow>
            login e st (c_loginName c) password =
              reply 401 ''Password has expired. Please reset your password.'')"
proof -
  have found: "login_findCredential st (c_loginName c) = Some (c, u)"
    using assms(1-8) by (rule login_findCredential_unique)
  have "u_id u = c_userId c"
    using assms(5) by (auto simp: findUserByPk_def find_Some_iff)
  then have tok: "\<forall>clock < now e + jwt_expiresIn e.
      map_sum id t_userId (jwt_verify (generateToken e u c) (jwt_secret e) clock)
        = Inr (Some (c_userId c))"
    by (simp add: generateToken_def jwt_sign_def)
  have l: "login e st (c_loginName c) password =
      (if c_passwordExpired c
       then reply 401 ''Password has expired. Please reset your password.''
       else if \<not> bcrypt_compare e password h
            then reply 401 ''Invalid login credentials''
            else \<lparr>status = 200, message = ''Login successful'',
                   r_token = Some (generateToken e u c)\<rparr>)"
    using found assms(9-11) by (simp add: login_def)
  show ?thesis
    unfolding l using tok by simp
qed

theorem login_outcomes_witness:
  "login example_env example_store ''a'' ''pw12345678'' =
     \<lparr>status = 200, message = ''Login successful'',
      r_token = Some (generateToken example_env alice alice_password)\<rparr>"
  using login_outcomes [of alice_password example_store alice "''saltpw12345678''"
      "''pw12345678''" example_env]
  by (simp add: example_store_alice_password example_store_alice example_store_login_index
      example_env_compare)

section \<open>Row updates under the primary key\<close>

lemma replace_row_absent:
  "c_id c' \<notin> c_id ` set cs \<Longrightarrow> replace_row c' cs = cs"
  by (induction cs) (auto simp: replace_row_def)

lemma distinct_id_eq:
  assumes "distinct (map c_id cs)" and "x \<in> set cs" and "y \<in> set cs" and "c_id x = c_id y"
  shows "x = y"
  using assms by (meson distinct_map inj_on_def)

lemma filter_replace_row_others:
  assumes "\<And>x. x \<in> set cs \<Longrightarrow> c_id x = c_id c' \<Longrightarrow> \<not> Q x" and "\<not> Q c'"
  shows "filter Q (replace_row c' cs) = filter Q cs"
  using assms by (induction cs) (auto simp: replace_row_def)

lemma count_replace_row:
  assumes "distinct (map c_id cs)" and "c \<in> set cs" and "c_id c' = c_id c"
    and "P c" and "\<not> P c'"
  shows "Suc (length (filter P (replace_row c' cs))) = length (filter P cs)"
  using assms(1,2)
proof (induction cs)
  case Nil
  then show ?case by simp
next
  case (Cons a cs)
  show ?case
  proof (cases "a = c")
    case True
    then have "c_id c' \<notin> c_id ` set cs"
      using Cons.prems(1) assms(3) by simp
    then have "replace_row c' cs = cs" by (rule replace_row_absent)
    then have "replace_row c' (a # cs) = c' # cs"
      using True assms(3) by (simp add: replace_row_def)
    then show ?thesis using True assms(4,5) by simp
  next
    case False
    then have in_tl: "c \<in> set cs" using Cons.prems(2) by simp
    then have "c_id a \<noteq> c_id c" using Cons.prems(1) by force
    then have "replace_row c' (a # cs) = a # replace_row c' cs"
      using assms(3) by (simp add: replace_row_def)
    moreover have "Suc (length (filter P (replace_row c' cs))) = length (filter P cs)"
      using Cons.prems(1) in_tl by (intro Cons.IH) simp_all
    ultimately show ?thesis by simp
  qed
qed

lemma find_own_credential_unique:
  assumes "distinct (map c_id (credentials st))" and "c \<in> set (credentials st)"
    and "c_userId c = uid" and "c_isActive c" and "\<not> c_isDeleted c"
  shows "find_own_credential st (c_id c) uid = Some c"
  unfolding find_own_credential_def
proof (rule find_distinct_key [where f = c_id])
  show "distinct (map c_id (credentials st))" by (fact assms(1))
  show "c \<in> set (credentials st)" by (fact assms(2))
  show "c_id c = c_id c \<and> c_userId c = uid \<and> c_isActive c \<and> \<not> c_isDeleted c"
    using assms(3-5) by simp
  fix y :: credential
  assume "c_id y = c_id c \<and> c_userId y = uid \<and> c_isActive y \<and> \<not> c_isDeleted y"
  then show "c_id y = c_id c" by simp
qed

lemma invariant_passes_hook: "credential_invariant c \<Longrightarrow> beforeValidate c = None"
  by (cases "c_authType c")
     (auto simp: credential_invariant_def beforeValidate_def truthy_str_def)

lemma soft_deleted_hook: "beforeValidate (soft_deleted c) = beforeValidate c"
  by (cases "c_authType c") (simp_all add: beforeValidate_def soft_deleted_def)

lemma delete_credential_found:
  assumes "authenticateToken e auth = Inr decoded" and "t_userId decoded = Some uid"
    and "find_own_credential st cid uid = Some c"
  shows "delete_credential e st auth cid =
     (if length (active_credentials st uid) \<le> 1
      then (reply 400 ''Cannot delete the only credential for this user'', st)
      else (case beforeValidate c of
              Some msg \<Rightarrow> (reply 500 ''Failed to delete credential'', st)
            | None \<Rightarrow> (reply 200 ''Credential deleted successfully'',
                        st\<lparr>credentials := replace_row (soft_deleted c) (credentials st)\<rparr>)))"
  using assms
  by (simp add: delete_credential_def credential_update_def soft_deleted_hook
      split: option.splits)

section \<open>Credential deletion\<close>

text \<open>
  C6. For a user authenticated by a valid token, deleting one of the user's own
  active credentials: when it is the only active one, the request fails with
  the last-credential error (400) and the store is unchanged; when the user has
  two or more, the request succeeds, that row becomes inactive and deleted, no
  other row changes, and the user keeps one active credential fewer, so at
  least one. (Primary keys are unique and the row satisfies the credential
  invariant.)
\<close>

theorem delete_credential_last_credential_guard:
  assumes "authenticateToken e auth = Inr decoded" and "t_userId decoded = Some uid"
    and "c \<in> set (credentials st)" and "c_userId c = uid"
    and "c_isActive c" and "\<not> c_isDeleted c"
    and "credential_invariant c"
    and "distinct (map c_id (credentials st))"
  shows "(length (active_credentials st uid) = 1 \<longrightarrow>
            delete_credential e st auth (c_id c) =
              (reply 400 ''Cannot delete the only credential for this user'', st))
       \<and> (2 \<le> length (active_credentials st uid) \<longrightarrow>
            delete_credential e st auth (c_id c) =
              (reply 200 ''Credential deleted successfully'',
               st\<lparr>credentials := replace_row (soft_deleted c) (credentials st)\<rparr>)
            \<and> soft_deleted c \<in> set (replace_row (soft_deleted c) (credentials st))
            \<and> Suc (length (active_credentials
                  (st\<lparr>credentials := replace_row (soft_deleted c) (credentials st)\<rparr>) uid))
                = length (active_credentials st uid)
            \<and> 1 \<le> length (active_credentials
                  (st\<lparr>credentials := replace_row (soft_deleted c) (credentials st)\<rparr>) uid))"
proof -
  have found: "find_own_credential st (c_id c) uid = Some c"
    using assms(8,3,4,5,6) by (rule find_own_credential_unique)
  have hook: "beforeValidate c = None"
    using assms(7) by (rule invariant_passes_hook)
  have del: "delete_credential e st auth (c_id c) =
     (if length (active_credentials st uid) \<le> 1
      then (reply 400 ''Cannot delete the only credential for this user'', st)
      else (reply 200 ''Credential deleted successfully'',
            st\<lparr>credentials := replace_row (soft_deleted c) (credentials st)\<rparr>))"
    using delete_credential_found [OF assms(1,2) found] hook by simp
  have row: "soft_deleted c \<in> set (replace_row (soft_deleted c) (credentials st))"
    using assms(3) by (force simp: replace_row_def soft_deleted_def)
  have "Suc (length (filter (\<lambda>x. c_userId x = uid \<and> c_isActive x \<and> \<not> c_isDeleted x)
                (replace_row (soft_deleted c) (credentials st))))
        = length (filter (\<lambda>x. c_userId x = uid \<and> c_isActive x \<and> \<not> c_isDeleted x)
                (credentials st))"
    using assms(8,3)
  proof (rule count_replace_row)
    show "c_id (soft_deleted c) = c_id c" by (simp add: soft_deleted_def)
    show "c_userId c = uid \<and> c_isActive c \<and> \<not> c_isDeleted c" using assms(4-6) by simp
    show "\<not> (c_userId (soft_deleted c) = uid \<and> c_isActive (soft_deleted c)
              \<and> \<not> c_isDeleted (soft_deleted c))"
      by (simp add: soft_deleted_def)
  qed
  then have count: "Suc (length (active_credentials
        (st\<lparr>credentials := replace_row (soft_deleted c) (credentials st)\<rparr>) uid))
      = length (active_credentials st uid)"
    by (simp add: active_credentials_def)
  show ?thesis
    unfolding del using row count by auto
qed

lemma alice_token_authenticates:
  "authenticateToken example_env (Some alice_token) = Inr alice_claims"
  "t_userId alice_claims = Some 1"
  by (simp_all add: authenticateToken_def alice_token_def alice_claims_def example_env_def)

lemma example_store_alice_openid:
  "alice_openid \<in> set (credentials example_store)"
  "c_userId alice_openid = 1" "c_isActive alice_openid" "\<not> c_isDeleted alice_openid"
  "credential_invariant alice_openid"
  by (simp_all add: example_store_def alice_openid_def credential_invariant_def truthy_str_def)

lemma example_store_ids: "distinct (map c_id (credentials example_store))"
  by (simp add: example_store_def alice_password_def alice_openid_def)

lemma example_store_active: "length (active_credentials example_store (Suc 0)) = 2"
  by (simp add: active_credentials_def example_store_def alice_password_def alice_openid_def)

lemma registered_store_alice:
  "registered_credential \<in> set (credentials registered_store)"
  "c_userId registered_credential = 1" "c_isActive registered_credential"
  "\<not> c_isDeleted registered_credential" "credential_invariant registered_credential"
  "distinct (map c_id (credentials registered_store))"
  "length (active_credentials registered_store (Suc 0)) = 1"
  by (simp_all add: registered_store_def registered_credential_def alice_password_def
      empty_store_def credential_invariant_def truthy_str_def active_credentials_def)

theorem delete_credential_last_credential_guard_witness:
  "delete_credential example_env example_store (Some alice_token) (c_id alice_openid) =
     (reply 200 ''Credential deleted successfully'',
      example_store\<lparr>credentials :=
        replace_row (soft_deleted alice_openid) (credentials example_store)\<rparr>)
   \<and> delete_credential example_env registered_store (Some alice_token)
        (c_id registered_credential) =
     (reply 400 ''Cannot delete the only credential for this user'', registered_store)"
  using delete_credential_last_credential_guard
      [where e = example_env and auth = "Some alice_token" and decoded = alice_claims
         and uid = 1 and c = alice_openid and st = example_store]
    delete_credential_last_credential_guard
      [where e = example_env and auth = "Some alice_token" and decoded = alice_claims
         and uid = 1 and c = registered_credential and st = registered_store]
  by (simp add: alice_token_authenticates example_store_alice_openid example_store_ids
      example_store_active registered_store_alice)

lemma find_own_credential_Some:
  assumes "find_own_credential st cid uid = Some c"
  shows "c \<in> set (credentials st)" and "c_id c = cid" and "c_userId c = uid"
  using assms by (auto simp: find_own_credential_def find_Some_iff)

lemma delete_credential_store:
  "snd (delete_credential e st auth cid) = st
   \<or> (\<exists>uid c. token_user e auth = Some uid \<and> find_own_credential st cid uid = Some c
        \<and> snd (delete_credential e st auth cid) =
            st\<lparr>credentials := replace_row (soft_deleted c) (credentials st)\<rparr>)"
  by (auto simp: delete_credential_def token_user_def credential_update_def
      split: sum.splits option.splits)

text \<open>
  C10. Whatever the request, credential deletion leaves every credential of
  every user other than the authenticated one as it was, and leaves the Users
  table alone; and when the credential id belongs to a different user than the
  authenticated one, the answer is 404 and the store is unchanged. (Primary
  keys are unique.)
\<close>

theorem delete_credential_only_own:
  assumes "distinct (map c_id (credentials st))"
  shows "filter (\<lambda>x. Some (c_userId x) \<noteq> token_user e auth)
            (credentials (snd (delete_credential e st auth cid)))
          = filter (\<lambda>x. Some (c_userId x) \<noteq> token_user e auth) (credentials st)
       \<and> users (snd (delete_credential e st auth cid)) = users st
       \<and> (\<forall>x \<in> set (credentials st).
             c_id x = cid \<and> token_user e auth \<noteq> None
               \<and> Some (c_userId x) \<noteq> token_user e auth \<longrightarrow>
             delete_credential e st auth cid = (reply 404 ''Credential not found'', st))"
proof (intro conjI ballI impI)
  let ?Q = "\<lambda>x. Some (c_userId x) \<noteq> token_user e auth"
  consider (same) "snd (delete_credential e st auth cid) = st"
    | (upd) uid c where "token_user e auth = Some uid"
        and "find_own_credential st cid uid = Some c"
        and "snd (delete_credential e st auth cid) =
               st\<lparr>credentials := replace_row (soft_deleted c) (credentials st)\<rparr>"
    using delete_credential_store [of e st auth cid] by blast
  note cases = this
  show "filter ?Q (credentials (snd (delete_credential e st auth cid)))
          = filter ?Q (credentials st)"
  proof (cases rule: cases)
    case same
    then show ?thesis by simp
  next
    case upd
    have c: "c \<in> set (credentials st)" "c_userId c = uid"
      using find_own_credential_Some [OF upd(2)] by simp_all
    have "filter ?Q (replace_row (soft_deleted c) (credentials st)) = filter ?Q (credentials st)"
    proof (rule filter_replace_row_others)
      show "\<not> ?Q (soft_deleted c)" using c(2) upd(1) by (simp add: soft_deleted_def)
      fix x assume "x \<in> set (credentials st)" and "c_id x = c_id (soft_deleted c)"
      then have "x = c"
        using distinct_id_eq [OF assms _ c(1)] by (simp add: soft_deleted_def)
      then show "\<not> ?Q x" using c(2) upd(1) by simp
    qed
    then show ?thesis using upd(3) by simp
  qed
  show "users (snd (delete_credential e st auth cid)) = users st"
    by (cases rule: cases) simp_all
next
  fix x
  assume x: "x \<in> set (credentials st)"
    and h: "c_id x = cid \<and> token_user e auth \<noteq> None
              \<and> Some (c_userId x) \<noteq> token_user e auth"
  then obtain decoded uid where tok: "authenticateToken e auth = Inr decoded"
      "t_userId decoded = Some uid" and other: "c_userId x \<noteq> uid"
    by (auto simp: token_user_def split: sum.splits)
  have "find_own_credential st cid uid = None"
  proof (cases "find_own_credential st cid uid")
    case None
    then show ?thesis .
  next
    case (Some c)
    have "c \<in> set (credentials st)" "c_id c = cid" "c_userId c = uid"
      using find_own_credential_Some [OF Some] by simp_all
    then have "x = c" using distinct_id_eq [OF assms x] h by simp
    then show ?thesis using other \<open>c_userId c = uid\<close> by simp
  qed
  then show "delete_credential e st auth cid = (reply 404 ''Credential not found'', st)"
    using tok by (simp add: delete_credential_def)
qed

lemma alice_token_user: "token_user example_env (Some alice_token) = Some 1"
  by (simp add: token_user_def alice_token_authenticates)

lemma two_user_store_credentials:
  "credentials two_user_store = [alice_password, alice_openid, bob_password]"
  by (simp add: two_user_store_def)

lemma two_user_store_ids: "distinct (map c_id (credentials two_user_store))"
  by (simp add: two_user_store_credentials alice_password_def alice_openid_def bob_password_def)

lemma credential_ids:
  "c_id alice_password = 1" "c_id alice_openid = 2" "c_id bob_password = 3"
  "c_userId alice_password = 1" "c_userId alice_openid = 1" "c_userId bob_password = 2"
  by (simp_all add: alice_password_def alice_openid_def bob_password_def)

theorem delete_credential_only_own_witness:
  "distinct (map c_id (credentials two_user_store))
   \<and> delete_credential example_env two_user_store (Some alice_token) 3 =
       (reply 404 ''Credential not found'', two_user_store)"
  using delete_credential_only_own [OF two_user_store_ids, of example_env "Some alice_token" 3]
    two_user_store_ids
  by (simp add: two_user_store_credentials credential_ids alice_token_user)

section \<open>Password change\<close>




lemma find_password_credential_Some:
  assumes "find_password_credential st uid = Some c"
  shows "c \<in> set (credentials st)" and "c_userId c = uid" and "c_authType c = Password"
    and "c_isActive c" and "\<not> c_isDeleted c"
  using assms by (auto simp: find_password_credential_def find_Some_iff)







section \<open>Registration is atomic\<close>

lemma registerUser_try_error:
  assumes "registerUser_try e (tx_begin st) em pw fn ln loginName rid = (Inl err, tx)"
  shows "tx_base tx = st \<and> tx_state tx \<noteq> TxCommitted"
  using assms
  by (auto simp: registerUser_try_def tx_begin_def tx_rollback_def tx_commit_def Let_def
      split: sum.splits if_splits prod.splits)

lemma tx_rollback_visible:
  assumes "tx_state tx \<noteq> TxCommitted"
  shows "(case tx_rollback tx of
            Inl err' \<Rightarrow> tx_visible tx
          | Inr tx' \<Rightarrow> tx_visible tx') = tx_base tx"
  using assms by (simp add: tx_rollback_def tx_visible_def)

lemma registerUser_error_store:
  assumes "fst (registerUser e st em pw fn ln loginName rid) = Inl err"
  shows "snd (registerUser e st em pw fn ln loginName rid) = st"
proof -
  obtain res tx where t: "registerUser_try e (tx_begin st) em pw fn ln loginName rid = (res, tx)"
    by (cases "registerUser_try e (tx_begin st) em pw fn ln loginName rid")
  show ?thesis
  proof (cases res)
    case (Inl err0)
    then have "tx_base tx = st \<and> tx_state tx \<noteq> TxCommitted"
      using t registerUser_try_error by blast
    then show ?thesis
      using t Inl by (simp add: registerUser_def tx_rollback_def tx_visible_def)
  next
    case (Inr r)
    then show ?thesis using t assms by (simp add: registerUser_def)
  qed
qed

lemma registerUser_try_success:
  assumes "registerUser_try e (tx_begin st) em pw fn ln loginName rid = (Inr res, tx)"
  shows "tx_state tx = TxCommitted
       \<and> rr_user res \<in> set (users (tx_work tx))
       \<and> (\<exists>c \<in> set (credentials (tx_work tx)).
             c_userId c = u_id (rr_user res) \<and> c_loginName c = loginName
             \<and> c_authType c = Password \<and> c_isActive c \<and> \<not> c_isDeleted c)"
proof -
  obtain u w1 where u: "register_findOrCreateUser e st em fn ln rid = Inr (u, w1)"
    using assms
    by (auto simp: registerUser_try_def tx_begin_def split: sum.splits)
  have in_w1: "u \<in> set (users w1)"
    using u
    by (auto simp: register_findOrCreateUser_def findUserByEmail_def User_create_def Let_def
        find_Some_iff split: option.splits if_splits)
  obtain c w2 where c: "UserCredential_create w1 (new_password_credential e (u_id u) loginName pw)
      = Inr (c, w2)"
    and tx: "tx = \<lparr>tx_base = st, tx_work = w2, tx_state = TxCommitted\<rparr>"
    and res: "rr_user res = u"
    using assms u
    by (auto simp: registerUser_try_def tx_begin_def tx_rollback_def tx_commit_def Let_def
        split: sum.splits if_splits prod.splits)
  have "users w2 = users w1 \<and> c \<in> set (credentials w2) \<and> c_userId c = u_id u
      \<and> c_loginName c = loginName \<and> c_authType c = Password \<and> c_isActive c \<and> \<not> c_isDeleted c"
    using c
    by (auto simp: UserCredential_create_def new_password_credential_def Let_def
        split: option.splits if_splits)
  then show ?thesis
    using tx res in_w1 by auto
qed

lemma register_not_created_store:
  assumes not_created: "status (fst (register e st em pw fn ln loginName rid)) \<noteq> 201"
  shows "snd (register e st em pw fn ln loginName rid) = st"
proof (cases "registerUser e st em pw fn ln loginName rid")
  case (Pair r s)
  show ?thesis
  proof (cases r)
    case (Inl err)
    then have "s = st"
      using Pair registerUser_error_store [of e st em pw fn ln loginName rid err] by simp
    then show ?thesis
      using Pair Inl by (simp add: register_def)
  next
    case (Inr res)
    then show ?thesis
      using Pair not_created by (auto simp: register_def split: if_splits)
  qed
qed

lemma registerUser_success_store:
  assumes ok: "fst (registerUser e st em pw fn ln loginName rid) = Inr res"
  shows "rr_user res \<in> set (users (snd (registerUser e st em pw fn ln loginName rid)))
          \<and> (\<exists>c \<in> set (credentials (snd (registerUser e st em pw fn ln loginName rid))).
                c_userId c = u_id (rr_user res) \<and> c_loginName c = loginName
                \<and> c_authType c = Password \<and> c_isActive c \<and> \<not> c_isDeleted c)"
proof -
  obtain r tx where t: "registerUser_try e (tx_begin st) em pw fn ln loginName rid = (r, tx)"
    by (cases "registerUser_try e (tx_begin st) em pw fn ln loginName rid")
  have r: "r = Inr res"
    using ok t by (cases r) (auto simp: registerUser_def split: sum.splits)
  have s: "snd (registerUser e st em pw fn ln loginName rid) = tx_visible tx"
    using t r by (simp add: registerUser_def)
  have "tx_state tx = TxCommitted
       \<and> rr_user res \<in> set (users (tx_work tx))
       \<and> (\<exists>c \<in> set (credentials (tx_work tx)).
             c_userId c = u_id (rr_user res) \<and> c_loginName c = loginName
             \<and> c_authType c = Password \<and> c_isActive c \<and> \<not> c_isDeleted c)"
    using t r registerUser_try_success by blast
  then show ?thesis
    unfolding s by (simp add: tx_visible_def)
qed

text \<open>
  C7. Registration is atomic. Whenever \<open>registerUser\<close> fails, at whatever step
  (the login name already taken after the user row was created, a rejected
  e-mail address, a rejected credential), the store afterwards is the store
  before: no user and no credential of the attempt remains. The same holds for
  every answer of \<open>POST /register\<close> other than 201. When it succeeds, the user
  and an active password credential bound to that user are both in the store.
\<close>

theorem registerUser_atomic:
  "(\<forall>err. fst (registerUser e st em pw fn ln loginName rid) = Inl err \<longrightarrow>
          snd (registerUser e st em pw fn ln loginName rid) = st)
   \<and> (status (fst (register e st em pw fn ln loginName rid)) \<noteq> 201 \<longrightarrow>
          snd (register e st em pw fn ln loginName rid) = st)
   \<and> (\<forall>res. fst (registerUser e st em pw fn ln loginName rid) = Inr res \<longrightarrow>
          rr_user res \<in> set (users (snd (registerUser e st em pw fn ln loginName rid)))
          \<and> (\<exists>c \<in> set (credentials (snd (registerUser e st em pw fn ln loginName rid))).
                c_userId c = u_id (rr_user res) \<and> c_loginName c = loginName
                \<and> c_authType c = Password \<and> c_isActive c \<and> \<not> c_isDeleted c))"
proof -
  have a: "\<forall>err. fst (registerUser e st em pw fn ln loginName rid) = Inl err \<longrightarrow>
          snd (registerUser e st em pw fn ln loginName rid) = st"
    using registerUser_error_store by blast
  have b: "status (fst (register e st em pw fn ln loginName rid)) \<noteq> 201 \<longrightarrow>
          snd (register e st em pw fn ln loginName rid) = st"
    using register_not_created_store by blast
  have c: "\<forall>res. fst (registerUser e st em pw fn ln loginName rid) = Inr res \<longrightarrow>
          rr_user res \<in> set (users (snd (registerUser e st em pw fn ln loginName rid)))
          \<and> (\<exists>c \<in> set (credentials (snd (registerUser e st em pw fn ln loginName rid))).
                c_userId c = u_id (rr_user res) \<and> c_loginName c = loginName
                \<and> c_authType c = Password \<and> c_isActive c \<and> \<not> c_isDeleted c)"
    using registerUser_success_store by blast
  show ?thesis
    by (rule conjI [OF a conjI [OF b c]])
qed

lemma register_taken_user:
  "register_findOrCreateUser example_env example_store ''b@x.com'' ''B'' ''C'' None
     = Inr (bob, example_store\<lparr>users := [alice, bob]\<rparr>)"
  by (simp add: register_findOrCreateUser_def findUserByEmail_def User_create_def new_user_def
      truthy_num_def fresh_id_def example_env_def example_store_def alice_def bob_def Let_def)

lemma example_store_login_taken:
  "list_ex (\<lambda>c. c_loginName c = ''a'' \<and> c_authType c = Password)
     (credentials example_store)"
  by (simp add: example_store_def alice_password_def)

lemma registerUser_try_taken:
  "registerUser_try example_env (tx_begin example_store)
       ''b@x.com'' ''pw12345678'' ''B'' ''C'' ''a'' None
     = (Inl ''Login name already in use'',
        \<lparr>tx_base = example_store, tx_work = example_store\<lparr>users := [alice, bob]\<rparr>,
         tx_state = TxRolledBack\<rparr>)"
  by (simp add: registerUser_try_def tx_begin_def register_taken_user Let_def
      example_store_login_taken tx_rollback_def)

lemma registerUser_taken:
  "fst (registerUser example_env example_store
          ''b@x.com'' ''pw12345678'' ''B'' ''C'' ''a'' None)
     = Inl ''Transaction cannot be rolled back because it has been finished''"
  by (simp add: registerUser_def registerUser_try_taken tx_rollback_def)

theorem registerUser_atomic_witness:
  "fst (registerUser example_env example_store
          ''b@x.com'' ''pw12345678'' ''B'' ''C'' ''a'' None)
     = Inl ''Transaction cannot be rolled back because it has been finished''
   \<and> snd (registerUser example_env example_store
          ''b@x.com'' ''pw12345678'' ''B'' ''C'' ''a'' None) = example_store"
  using registerUser_atomic [of example_env example_store
      "''b@x.com''" "''pw12345678''" "''B''" "''C''" "''a''" None]
    registerUser_taken
  by simp

section \<open>OpenID find-or-create\<close>





lemma openid_findOrCreateUser_member:
  assumes "openid_findOrCreateUser e w em fn ln = Inr (u, w1)"
  shows "u \<in> set (users w1) \<and> credentials w1 = credentials w"
  using assms
  by (auto simp: openid_findOrCreateUser_def findUserByEmail_def User_create_def Let_def
      find_Some_iff split: option.splits if_splits)












section \<open>The credential invariant is preserved\<close>

lemma hook_gives_invariant:
  assumes "beforeValidate c = None"
    and "c_authType c = Password \<longrightarrow> c_openIdProvider c = None"
    and "c_authType c = OpenId \<longrightarrow> truthy_str (c_openIdSubject c) \<and> c_passwordHash c = None"
  shows "credential_invariant c"
  using assms
  by (cases "c_authType c")
     (auto simp: credential_invariant_def beforeValidate_def split: if_splits)

lemma credential_invariant_id: "credential_invariant (c\<lparr>c_id := k\<rparr>) = credential_invariant c"
  by (cases "c_authType c") (simp_all add: credential_invariant_def)

lemma credential_invariant_soft_deleted:
  "credential_invariant (soft_deleted c) = credential_invariant c"
  by (cases "c_authType c") (simp_all add: credential_invariant_def soft_deleted_def)

lemma UserCredential_create_ok:
  assumes "UserCredential_create st c = Inr (c', st')" and "credentials_ok st"
    and "c_authType c = Password \<longrightarrow> c_openIdProvider c = None"
    and "c_authType c = OpenId \<longrightarrow> truthy_str (c_openIdSubject c) \<and> c_passwordHash c = None"
  shows "credentials_ok st'"
proof -
  have hook: "beforeValidate c = None"
    using assms(1) by (auto simp: UserCredential_create_def split: option.splits)
  then have "credential_invariant c"
    using assms(3,4) by (rule hook_gives_invariant)
  moreover have "credentials st' = credentials st @ [c\<lparr>c_id := fresh_id (map c_id (credentials st))\<rparr>]"
    using assms(1) hook by (auto simp: UserCredential_create_def Let_def split: if_splits)
  ultimately show ?thesis
    using assms(2) by (simp add: credentials_ok_def credential_invariant_id)
qed

lemma replace_row_ok:
  assumes "list_all credential_invariant cs" and "credential_invariant c'"
  shows "list_all credential_invariant (replace_row c' cs)"
  using assms by (induction cs) (auto simp: replace_row_def)

lemma credential_update_ok:
  assumes "credential_update st c' = Inr st'" and "credentials_ok st"
    and "beforeValidate c' = None \<Longrightarrow> credential_invariant c'"
  shows "credentials_ok st'"
proof -
  have hook: "beforeValidate c' = None"
    using assms(1) by (auto simp: credential_update_def split: option.splits)
  then have "credentials st' = replace_row c' (credentials st)"
    using assms(1) by (auto simp: credential_update_def)
  then show ?thesis
    using assms(2) assms(3) [OF hook] by (simp add: credentials_ok_def replace_row_ok)
qed

lemma credentials_ok_member:
  "credentials_ok st \<Longrightarrow> c \<in> set (credentials st) \<Longrightarrow> credential_invariant c"
  by (simp add: credentials_ok_def list_all_iff)

lemma set_password_ok:
  assumes "c_authType c = Password" and "credential_invariant c"
    and "beforeValidate (set_password e c pw) = None"
  shows "credential_invariant (set_password e c pw)"
proof (rule hook_gives_invariant)
  show "beforeValidate (set_password e c pw) = None" by (fact assms(3))
  show "c_authType (set_password e c pw) = Password \<longrightarrow>
          c_openIdProvider (set_password e c pw) = None"
    using assms(1,2) by (simp add: set_password_def credential_invariant_def)
  show "c_authType (set_password e c pw) = OpenId \<longrightarrow>
          truthy_str (c_openIdSubject (set_password e c pw))
          \<and> c_passwordHash (set_password e c pw) = None"
    using assms(1) by (simp add: set_password_def)
qed

lemma set_password_update_ok:
  assumes "credential_update st (set_password e c pw) = Inr st'" and "credentials_ok st"
    and "c \<in> set (credentials st)" and "c_authType c = Password"
  shows "credentials_ok st'"
  using assms(1,2)
proof (rule credential_update_ok)
  assume "beforeValidate (set_password e c pw) = None"
  with assms(4) credentials_ok_member [OF assms(2,3)]
  show "credential_invariant (set_password e c pw)"
    by (rule set_password_ok)
qed

lemma change_password_ok:
  assumes "credentials_ok st"
  shows "credentials_ok (snd (change_password e st auth cur new))"
proof -
  have "snd (change_password e st auth cur new) = st
      \<or> (\<exists>uid c. find_password_credential st uid = Some c
            \<and> credential_update st (set_password e c new)
                = Inr (snd (change_password e st auth cur new)))"
    by (auto simp: change_password_def split: sum.splits option.splits)
  then show ?thesis
  proof (elim disjE exE conjE)
    assume "snd (change_password e st auth cur new) = st"
    then show ?thesis using assms by simp
  next
    fix uid c
    assume f: "find_password_credential st uid = Some c"
      and u: "credential_update st (set_password e c new) = Inr (snd (change_password e st auth cur new))"
    show ?thesis
      using u assms find_password_credential_Some(1) [OF f]
        find_password_credential_Some(3) [OF f]
      by (rule set_password_update_ok)
  qed
qed

lemma reset_password_confirm_ok:
  assumes "credentials_ok st"
  shows "credentials_ok (snd (reset_password_confirm e st tok new))"
proof -
  have "snd (reset_password_confirm e st tok new) = st
      \<or> (\<exists>uid c. find_password_credential st uid = Some c
            \<and> credential_update st (set_password e c new)
                = Inr (snd (reset_password_confirm e st tok new)))"
    by (auto simp: reset_password_confirm_def split: sum.splits option.splits)
  then show ?thesis
  proof (elim disjE exE conjE)
    assume "snd (reset_password_confirm e st tok new) = st"
    then show ?thesis using assms by simp
  next
    fix uid c
    assume f: "find_password_credential st uid = Some c"
      and u: "credential_update st (set_password e c new) = Inr (snd (reset_password_confirm e st tok new))"
    show ?thesis
      using u assms find_password_credential_Some(1) [OF f]
        find_password_credential_Some(3) [OF f]
      by (rule set_password_update_ok)
  qed
qed

lemma delete_credential_ok:
  assumes "credentials_ok st"
  shows "credentials_ok (snd (delete_credential e st auth cid))"
proof -
  consider "snd (delete_credential e st auth cid) = st"
    | uid c where "find_own_credential st cid uid = Some c"
        and "snd (delete_credential e st auth cid) =
               st\<lparr>credentials := replace_row (soft_deleted c) (credentials st)\<rparr>"
    using delete_credential_store [of e st auth cid] by blast
  then show ?thesis
  proof cases
    case 1
    then show ?thesis using assms by simp
  next
    case 2
    have "credential_invariant c"
      using assms find_own_credential_Some(1) [OF 2(1)] by (rule credentials_ok_member)
    then show ?thesis
      using assms 2(2)
      by (simp add: credentials_ok_def replace_row_ok credential_invariant_soft_deleted)
  qed
qed

subsection \<open>The transactional paths\<close>

lemma tx_begin_ok: "credentials_ok st \<Longrightarrow> tx_ok (tx_begin st)"
  by (simp add: tx_ok_def tx_begin_def)

lemma tx_visible_ok: "tx_ok tx \<Longrightarrow> credentials_ok (tx_visible tx)"
  by (simp add: tx_ok_def tx_visible_def)

lemma tx_rollback_ok: "tx_rollback tx = Inr tx' \<Longrightarrow> tx_ok tx \<Longrightarrow> tx_ok tx'"
  by (auto simp: tx_rollback_def tx_ok_def split: if_splits)

lemma tx_commit_ok: "tx_commit tx = Inr tx' \<Longrightarrow> tx_ok tx \<Longrightarrow> tx_ok tx'"
  by (auto simp: tx_commit_def tx_ok_def split: if_splits)

lemma tx_work_ok: "tx_ok tx \<Longrightarrow> credentials_ok w \<Longrightarrow> tx_ok (tx\<lparr>tx_work := w\<rparr>)"
  by (simp add: tx_ok_def)

lemma catch_rollback_ok:
  assumes "tx_ok tx"
  shows "credentials_ok (case tx_rollback tx of
                           Inl err' \<Rightarrow> tx_visible tx
                         | Inr tx' \<Rightarrow> tx_visible tx')"
  using assms tx_rollback_ok [of tx] tx_visible_ok
  by (cases "tx_rollback tx") auto

lemma register_findOrCreateUser_credentials:
  "register_findOrCreateUser e w em fn ln rid = Inr (u, w1) \<Longrightarrow> credentials w1 = credentials w"
  by (auto simp: register_findOrCreateUser_def User_create_def Let_def
      split: option.splits if_splits)

lemma registerUser_try_ok:
  assumes "registerUser_try e tx em pw fn ln loginName rid = (res, tx')" and "tx_ok tx"
  shows "tx_ok tx'"
proof (cases "register_findOrCreateUser e (tx_work tx) em fn ln rid")
  case (Inl err)
  then show ?thesis using assms by (simp add: registerUser_try_def)
next
  case (Inr p)
  obtain u w1 where p: "p = (u, w1)" by (cases p)
  have "credentials w1 = credentials (tx_work tx)"
    using Inr p register_findOrCreateUser_credentials by blast
  then have w1: "credentials_ok w1"
    using assms(2) by (simp add: tx_ok_def credentials_ok_def)
  then have tx1: "tx_ok (tx\<lparr>tx_work := w1\<rparr>)"
    using assms(2) by (rule tx_work_ok [rotated])
  show ?thesis
  proof (cases "list_ex (\<lambda>c. c_loginName c = loginName \<and> c_authType c = Password)
                  (credentials w1)")
    case True
    then show ?thesis
      using assms(1) Inr p tx1 tx_rollback_ok [of "tx\<lparr>tx_work := w1\<rparr>"]
      by (auto simp: registerUser_try_def Let_def split: sum.splits)
  next
    case False
    show ?thesis
    proof (cases "UserCredential_create w1 (new_password_credential e (u_id u) loginName pw)")
      case (Inl err)
      then show ?thesis
        using assms(1) Inr p False tx1 by (simp add: registerUser_try_def Let_def)
    next
      case (Inr q)
      obtain c w2 where q: "q = (c, w2)" by (cases q)
      have "credentials_ok w2"
        using Inr [unfolded q] w1
        by (rule UserCredential_create_ok) (simp_all add: new_password_credential_def)
      then have tx2: "tx_ok (tx\<lparr>tx_work := w2\<rparr>)"
        using assms(2) by (rule tx_work_ok [rotated])
      show ?thesis
        using assms(1) \<open>register_findOrCreateUser e (tx_work tx) em fn ln rid = Inr p\<close>
          p False Inr q tx2 tx_commit_ok [of "tx\<lparr>tx_work := w2\<rparr>"]
        by (auto simp: registerUser_try_def Let_def split: sum.splits)
    qed
  qed
qed

lemma registerUser_ok:
  assumes "credentials_ok st"
  shows "credentials_ok (snd (registerUser e st em pw fn ln loginName rid))"
proof -
  obtain res tx where t: "registerUser_try e (tx_begin st) em pw fn ln loginName rid = (res, tx)"
    by (cases "registerUser_try e (tx_begin st) em pw fn ln loginName rid")
  have ok: "tx_ok tx"
    using t tx_begin_ok [OF assms] by (rule registerUser_try_ok)
  show ?thesis
  proof (cases res)
    case (Inl err)
    have "snd (registerUser e st em pw fn ln loginName rid) =
        (case tx_rollback tx of Inl err' \<Rightarrow> tx_visible tx | Inr tx' \<Rightarrow> tx_visible tx')"
      using t Inl by (simp add: registerUser_def split: sum.splits)
    then show ?thesis using catch_rollback_ok [OF ok] by simp
  next
    case (Inr r)
    then show ?thesis using t ok by (simp add: registerUser_def tx_visible_ok)
  qed
qed

lemma register_ok:
  assumes "credentials_ok st"
  shows "credentials_ok (snd (register e st em pw fn ln loginName rid))"
  using assms registerUser_ok [OF assms, of e em pw fn ln loginName rid]
  by (auto simp: register_def split: prod.splits sum.splits)

lemma commit_with_ok:
  "commit_with tx u c = (res, tx') \<Longrightarrow> tx_ok tx \<Longrightarrow> tx_ok tx'"
  using tx_commit_ok [of tx]
  by (auto simp: commit_with_def split: sum.splits)

lemma User_update_credentials: "credentials (User_update st u) = credentials st"
  by (simp add: User_update_def)

lemma openid_try_ok:
  assumes "openid_try e tx provider subject em fn ln loginName = (res, tx')"
    and "tx_ok tx" and "subject \<noteq> []"
  shows "tx_ok tx'"
proof (cases "openid_findCredential (tx_work tx) provider subject")
  case (Some c)
  show ?thesis
  proof (cases "fn \<noteq> [] \<or> ln \<noteq> []")
    case True
    show ?thesis
    proof (cases "findUserByPk (tx_work tx) (c_userId c)")
      case None
      then show ?thesis using assms(1,2) Some True by (simp add: openid_try_def)
    next
      case (Some u)
      let ?u' = "u\<lparr>u_firstName := (if fn \<noteq> [] then fn else u_firstName u),
                    u_lastName := (if ln \<noteq> [] then ln else u_lastName u)\<rparr>"
      have "credentials_ok (User_update (tx_work tx) ?u')"
        using assms(2) by (simp add: credentials_ok_def tx_ok_def User_update_credentials)
      then have "tx_ok (tx\<lparr>tx_work := User_update (tx_work tx) ?u'\<rparr>)"
        using assms(2) by (rule tx_work_ok [rotated])
      moreover have "commit_with (tx\<lparr>tx_work := User_update (tx_work tx) ?u'\<rparr>) (Some ?u') c
          = (res, tx')"
        using assms(1) \<open>openid_findCredential (tx_work tx) provider subject = Some c\<close> True Some
        by (simp add: openid_try_def Let_def)
      ultimately show ?thesis using commit_with_ok by blast
    qed
  next
    case False
    then have "commit_with tx (findUserByPk (tx_work tx) (c_userId c)) c = (res, tx')"
      using assms(1) Some by (simp add: openid_try_def)
    then show ?thesis using assms(2) by (rule commit_with_ok)
  qed
next
  case None
  show ?thesis
  proof (cases "openid_findOrCreateUser e (tx_work tx) em fn ln")
    case (Inl err)
    then show ?thesis using assms(1,2) None by (simp add: openid_try_def)
  next
    case (Inr p)
    obtain u w1 where p: "p = (u, w1)" by (cases p)
    have "credentials w1 = credentials (tx_work tx)"
      using openid_findOrCreateUser_member [OF Inr [unfolded p]] by simp
    then have w1: "credentials_ok w1"
      using assms(2) by (simp add: tx_ok_def credentials_ok_def)
    show ?thesis
    proof (cases "UserCredential_create w1
                    (new_openid_credential (u_id u) loginName provider subject)")
      case (Inl err)
      then show ?thesis
        using assms(1,2) None \<open>openid_findOrCreateUser e (tx_work tx) em fn ln = Inr p\<close> p w1
        by (auto simp: openid_try_def tx_work_ok)
    next
      case (Inr q)
      obtain c w2 where q: "q = (c, w2)" by (cases q)
      have "credentials_ok w2"
        using Inr [unfolded q] w1
        by (rule UserCredential_create_ok)
           (simp_all add: new_openid_credential_def truthy_str_def assms(3))
      then have "tx_ok (tx\<lparr>tx_work := w2\<rparr>)"
        using assms(2) by (rule tx_work_ok [rotated])
      moreover have "commit_with (tx\<lparr>tx_work := w2\<rparr>) (Some u) c = (res, tx')"
        using assms(1) None \<open>openid_findOrCreateUser e (tx_work tx) em fn ln = Inr p\<close> p Inr q
        by (simp add: openid_try_def)
      ultimately show ?thesis using commit_with_ok by blast
    qed
  qed
qed

lemma openid_catch_ok:
  assumes "tx_ok tx"
  shows "credentials_ok (snd (openid_catch tx))"
proof (cases "tx_rollback tx")
  case (Inl err)
  then show ?thesis using tx_visible_ok [OF assms] by (simp add: openid_catch_def)
next
  case (Inr tx')
  then have "tx_ok tx'" using assms by (rule tx_rollback_ok)
  then show ?thesis using Inr by (simp add: openid_catch_def tx_visible_ok)
qed

lemma openid_store:
  assumes "\<not> (provider = [] \<or> subject = [] \<or> em = [] \<or> loginName = [])"
    and "openid_try e (tx_begin st) provider subject em fn ln loginName = (res, tx)"
  shows "snd (snd (openid e st provider subject em fn ln loginName)) = tx_visible tx
      \<or> snd (snd (openid e st provider subject em fn ln loginName)) = snd (openid_catch tx)"
proof (cases res)
  case (Inl err)
  then show ?thesis
    using assms by (cases "openid_catch tx") (simp add: openid_def)
next
  case (Inr p)
  obtain uo c where p: "p = (uo, c)" by (cases p)
  show ?thesis
  proof (cases uo)
    case None
    then show ?thesis
      using assms Inr p by (cases "openid_catch tx") (simp add: openid_def)
  next
    case (Some u)
    then show ?thesis
      using assms Inr p by (simp add: openid_def)
  qed
qed

lemma openid_ok:
  assumes "credentials_ok st"
  shows "credentials_ok (snd (snd (openid e st provider subject em fn ln loginName)))"
proof (cases "provider = [] \<or> subject = [] \<or> em = [] \<or> loginName = []")
  case True
  then show ?thesis using assms by (simp add: openid_def)
next
  case False
  obtain res tx where t: "openid_try e (tx_begin st) provider subject em fn ln loginName = (res, tx)"
    by (cases "openid_try e (tx_begin st) provider subject em fn ln loginName")
  have "subject \<noteq> []" using False by simp
  with t tx_begin_ok [OF assms] have ok: "tx_ok tx"
    by (rule openid_try_ok)
  show ?thesis
    using openid_store [OF False t] tx_visible_ok [OF ok] openid_catch_ok [OF ok]
    by (elim disjE) simp_all
qed

lemma service_findCredential_Some:
  assumes "service_findCredential st uid = Some c"
  shows "c \<in> set (credentials st)" and "c_authType c = Password"
  using assms by (auto simp: service_findCredential_def find_Some_iff)

lemma rollback_and_throw_ok:
  "rollback_and_throw tx msg = (res, tx') \<Longrightarrow> tx_ok tx \<Longrightarrow> tx_ok tx'"
  using tx_rollback_ok [of tx]
  by (auto simp: rollback_and_throw_def split: sum.splits)

lemma changePassword_try_ok:
  assumes "changePassword_try e tx uid cur new = (res, tx')" and "tx_ok tx"
  shows "tx_ok tx'"
proof (cases "service_findCredential (tx_work tx) uid")
  case None
  then show ?thesis
    using assms rollback_and_throw_ok by (simp add: changePassword_try_def)
next
  case (Some c)
  show ?thesis
  proof (cases "c_passwordHash c")
    case None
    then show ?thesis using assms Some by (simp add: changePassword_try_def)
  next
    case (Some h)
    show ?thesis
    proof (cases "bcrypt_compare e cur h")
      case False
      then show ?thesis
        using assms \<open>service_findCredential (tx_work tx) uid = Some c\<close> Some
          rollback_and_throw_ok
        by (simp add: changePassword_try_def)
    next
      case True
      show ?thesis
      proof (cases "credential_update (tx_work tx) (set_password e c new)")
        case (Inl err)
        then show ?thesis
          using assms \<open>service_findCredential (tx_work tx) uid = Some c\<close> Some True
          by (simp add: changePassword_try_def)
      next
        case (Inr w)
        have "credentials_ok (tx_work tx)" using assms(2) by (simp add: tx_ok_def)
        with Inr have "credentials_ok w"
          using service_findCredential_Some
            [OF \<open>service_findCredential (tx_work tx) uid = Some c\<close>]
          by (rule set_password_update_ok)
        then have "tx_ok (tx\<lparr>tx_work := w\<rparr>)"
          using assms(2) by (rule tx_work_ok [rotated])
        then show ?thesis
          using assms(1) \<open>service_findCredential (tx_work tx) uid = Some c\<close> Some True Inr
            tx_commit_ok [of "tx\<lparr>tx_work := w\<rparr>"]
          by (auto simp: changePassword_try_def split: sum.splits)
      qed
    qed
  qed
qed

lemma changePassword_ok:
  assumes "credentials_ok st"
  shows "credentials_ok (snd (changePassword e st uid cur new))"
proof -
  obtain res tx where t: "changePassword_try e (tx_begin st) uid cur new = (res, tx)"
    by (cases "changePassword_try e (tx_begin st) uid cur new")
  have ok: "tx_ok tx"
    using t tx_begin_ok [OF assms] by (rule changePassword_try_ok)
  show ?thesis
  proof (cases res)
    case (Inl err)
    have "snd (changePassword e st uid cur new) =
        (case tx_rollback tx of Inl err' \<Rightarrow> tx_visible tx | Inr tx' \<Rightarrow> tx_visible tx')"
      using t Inl by (simp add: changePassword_def split: sum.splits)
    then show ?thesis using catch_rollback_ok [OF ok] by simp
  next
    case (Inr r)
    then show ?thesis using t ok by (simp add: changePassword_def tx_visible_ok)
  qed
qed

lemma api_step_ok: "credentials_ok st \<Longrightarrow> credentials_ok (api_step e st call)"
  by (cases call)
     (simp_all add: register_ok registerUser_ok openid_ok change_password_ok
        changePassword_ok reset_password_confirm_ok delete_credential_ok)

text \<open>
  C5. Every persisted credential satisfies the mutual-exclusivity invariant on
  every code path that creates or updates a credential: from a store whose
  credentials all satisfy it (the empty store, for one), any sequence of
  registrations, OpenID logins, password changes, reset confirmations and
  credential deletions leads to a store whose credentials all satisfy it. A
  password credential has a non-empty hash and no OpenID provider; an OpenID
  credential has a provider and a subject and no hash.
\<close>

theorem credential_invariant_preserved:
  assumes "list_all credential_invariant (credentials st)"
  shows "list_all credential_invariant (credentials (api_run st calls))"
proof -
  have "credentials_ok st \<Longrightarrow> credentials_ok (api_run st calls)"
  proof (induction calls arbitrary: st)
    case Nil
    then show ?case by simp
  next
    case (Cons a calls)
    obtain e call where a: "a = (e, call)" by (cases a)
    have "credentials_ok (api_step e st call)"
      using Cons.prems by (rule api_step_ok)
    then show ?case
      unfolding a by (simp add: Cons.IH)
  qed
  then show ?thesis
    using assms by (simp add: credentials_ok_def)
qed

theorem credential_invariant_preserved_witness:
  "list_all credential_invariant (credentials empty_store)
   \<and> list_all credential_invariant (credentials (api_run empty_store
        [(example_env, Register ''a@x.com'' ''pw12345678'' ''A'' ''B'' ''a'' None),
         (example_env, OpenIdLogin ''idp'' ''sub'' ''a@x.com'' [] [] ''a''),
         (example_env, DeleteCredential (Some alice_token) 2)]))"
  using credential_invariant_preserved [of empty_store
        "[(example_env, Register ''a@x.com'' ''pw12345678'' ''A'' ''B'' ''a'' None),
         (example_env, OpenIdLogin ''idp'' ''sub'' ''a@x.com'' [] [] ''a''),
         (example_env, DeleteCredential (Some alice_token) 2)]"]
  by (simp add: empty_store_def)

end
